theory Spec2Isabelle
  imports Main
begin

section \<open>Syntax trees\<close>

text \<open>
  The transformer of \<^verbatim>\<open>src/transformer.ts\<close> works on the syntax tree of the
  \<^verbatim>\<open>typescript\<close> package. The model keeps the expression nodes the transformer
  looks at. A node's \<^verbatim>\<open>kind\<close> is a member of \<^verbatim>\<open>SyntaxKind\<close>. An optional chain
  link (\<^verbatim>\<open>a?.b\<close>) has the kind of the plain link and carries a
  \<^verbatim>\<open>questionDotToken\<close>, which is a flag here.
\<close>

datatype SyntaxKind =
    Identifier
  | PrivateIdentifier
  | NullKeyword
  | UndefinedKeyword
  | StringLiteral
  | NumericLiteral
  | ParenthesizedExpression
  | VoidExpression
  | PropertyAccessExpression
  | ElementAccessExpression
  | CallExpression
  | BinaryExpression
  | ConditionalExpression

text \<open>The kind of a binary expression's \<^verbatim>\<open>operatorToken\<close>; \<^verbatim>\<open>PlusToken\<close> stands for
  the operators the transformer never tests for.\<close>

datatype BinaryOperator =
    AmpersandAmpersandToken
  | BarBarToken
  | EqualsEqualsToken
  | EqualsEqualsEqualsToken
  | ExclamationEqualsToken
  | ExclamationEqualsEqualsToken
  | QuestionQuestionToken
  | PlusToken

text \<open>The \<^verbatim>\<open>name\<close> of a property access: an identifier (\<^verbatim>\<open>b\<close>) or a private
  identifier (\<^verbatim>\<open>#b\<close>).\<close>

datatype MemberName =
    Name string
  | PrivateName string

text \<open>
  Expression nodes, with the field names of the \<^verbatim>\<open>typescript\<close> interfaces as
  selectors (\<open>idText\<close> for the \<^verbatim>\<open>text\<close> of an identifier): an identifier,
  \<^verbatim>\<open>null\<close>, a node of kind
  \<^verbatim>\<open>UndefinedKeyword\<close>, string and numeric literals,
  \<^verbatim>\<open>(expression)\<close>, \<^verbatim>\<open>void expression\<close>, \<^verbatim>\<open>expression.name\<close>,
  \<^verbatim>\<open>expression[argumentExpression]\<close>, \<^verbatim>\<open>expression<typeArguments>(arguments)\<close>,
  \<^verbatim>\<open>left operatorToken right\<close> and \<^verbatim>\<open>condition ? whenTrue : whenFalse\<close>.
  Type arguments are kept as their text: the transformer passes them on untouched.
  A selector applied to a node without that field is unspecified; the code reads a
  field only behind the matching kind test or static type.
\<close>

datatype expr =
    Ident (idText: string)
  | Null
  | Undefined
  | StringLit string
  | NumericLit string
  | Paren (expression: expr)
  | Void (expression: expr)
  | PropertyAccess (expression: expr) (questionDotToken: bool) (name: MemberName)
  | ElementAccess (expression: expr) (questionDotToken: bool) (argumentExpression: expr)
  | Call (expression: expr) (questionDotToken: bool) (typeArguments: "string list")
      (arguments: "expr list")
  | Binary (left: expr) (operatorToken: BinaryOperator) (right: expr)
  | Conditional (condition: expr) (whenTrue: expr) (whenFalse: expr)

fun kind :: "expr \<Rightarrow> SyntaxKind" where
  "kind (Ident _) = Identifier"
| "kind Null = NullKeyword"
| "kind Undefined = UndefinedKeyword"
| "kind (StringLit _) = StringLiteral"
| "kind (NumericLit _) = NumericLiteral"
| "kind (Paren _) = ParenthesizedExpression"
| "kind (Void _) = VoidExpression"
| "kind (PropertyAccess _ _ _) = PropertyAccessExpression"
| "kind (ElementAccess _ _ _) = ElementAccessExpression"
| "kind (Call _ _ _ _) = CallExpression"
| "kind (Binary _ _ _) = BinaryExpression"
| "kind (Conditional _ _ _) = ConditionalExpression"

fun nameKind :: "MemberName \<Rightarrow> SyntaxKind" where
  "nameKind (Name _) = Identifier"
| "nameKind (PrivateName _) = PrivateIdentifier"

text \<open>The type guards of the \<^verbatim>\<open>typescript\<close> package test the kind.\<close>

definition isIdentifier :: "expr \<Rightarrow> bool" where
  "isIdentifier node = (kind node = Identifier)"

definition isParenthesizedExpression :: "expr \<Rightarrow> bool" where
  "isParenthesizedExpression node = (kind node = ParenthesizedExpression)"

definition isVoidExpression :: "expr \<Rightarrow> bool" where
  "isVoidExpression node = (kind node = VoidExpression)"

definition isPropertyAccessExpression :: "expr \<Rightarrow> bool" where
  "isPropertyAccessExpression node = (kind node = PropertyAccessExpression)"

definition isElementAccessExpression :: "expr \<Rightarrow> bool" where
  "isElementAccessExpression node = (kind node = ElementAccessExpression)"

definition isCallExpression :: "expr \<Rightarrow> bool" where
  "isCallExpression node = (kind node = CallExpression)"

definition isBinaryExpression :: "expr \<Rightarrow> bool" where
  "isBinaryExpression node = (kind node = BinaryExpression)"

text \<open>\<^verbatim>\<open>isIdentifier\<close> and \<^verbatim>\<open>isPrivateIdentifier\<close> on the name of a property access.\<close>

definition isIdentifierName :: "MemberName \<Rightarrow> bool" where
  "isIdentifierName node = (nameKind node = Identifier)"

definition isPrivateIdentifier :: "MemberName \<Rightarrow> bool" where
  "isPrivateIdentifier node = (nameKind node = PrivateIdentifier)"

text \<open>
  The node factories of the \<^verbatim>\<open>typescript\<close> package build the node they are named
  after; \<^verbatim>\<open>createToken(SyntaxKind.QuestionDotToken)\<close> is the flag \<open>True\<close>. Parentheses
  that the factory or the printer may add around an operand are not part of the model.
\<close>

definition createNullishCoalesce :: "expr \<Rightarrow> expr \<Rightarrow> expr" where
  "createNullishCoalesce lhs rhs = Binary lhs QuestionQuestionToken rhs"

definition createPropertyAccessChain :: "expr \<Rightarrow> bool \<Rightarrow> MemberName \<Rightarrow> expr" where
  "createPropertyAccessChain e q n = PropertyAccess e q n"

definition createElementAccessChain :: "expr \<Rightarrow> bool \<Rightarrow> expr \<Rightarrow> expr" where
  "createElementAccessChain e q i = ElementAccess e q i"

definition createCallChain :: "expr \<Rightarrow> bool \<Rightarrow> string list \<Rightarrow> expr list \<Rightarrow> expr" where
  "createCallChain e q ta args = Call e q ta args"

section \<open>The helpers of utils.ts\<close>

text \<open>Errors: the \<^verbatim>\<open>Error('invalid cast: ' + SyntaxKind[node.kind])\<close> that \<^verbatim>\<open>cast\<close>
  throws, and \<open>IllTyped\<close> for the calls that the static types of the source exclude
  (a function typed for a \<^verbatim>\<open>BinaryExpression\<close> or a \<^verbatim>\<open>ConditionalExpression\<close> applied to
  another node, a chain link that is no \<^verbatim>\<open>ChainableExpression\<close>, an empty chain list).
  \<open>visitor_errors\<close> below shows that the visitor never ends in \<open>IllTyped\<close>.\<close>

datatype error = InvalidCast SyntaxKind | IllTyped

fun skipParens :: "expr \<Rightarrow> expr" where
  "skipParens (Paren e) = skipParens e"
| "skipParens node = node"

definition cast :: "MemberName \<Rightarrow> (MemberName \<Rightarrow> bool) \<Rightarrow> error + MemberName" where
  "cast node cb = (if \<not> cb node then Inl (InvalidCast (nameKind node)) else Inr node)"

section \<open>The transformer's closure\<close>

text \<open>
  \<^verbatim>\<open>transformer(sourceFile, target)\<close> closes over the source file and the target
  version. The source file is used for \<^verbatim>\<open>node.getText(sourceFile)\<close> only, so it is
  modelled as the function that gives every node its text. A node that the transformer
  has built has the text that this function gives to its structure, and two nodes of one
  structure have one text: the statements about an expression that occurs several times
  (the links of a chain, the subject of a guard and the guarded branch) are about
  occurrences that the source file spells the same way.
\<close>

text \<open>
  Modelled from the spec: the enum \<^verbatim>\<open>TypeScriptVersion\<close> is declared outside
  \<^verbatim>\<open>src/\<close>. The spec orders the versions and gates the rules behind "language
  version \<open>\<ge>\<close> the version that introduced them"; the code compares
  \<^verbatim>\<open>target >= TypeScriptVersion.v3_7\<close>. A version is a number and the number of
  \<^verbatim>\<open>v3_7\<close> is a field of the closure, so that nothing depends on its value.
\<close>

type_synonym TypeScriptVersion = nat

record env =
  sourceFile :: "expr \<Rightarrow> string"
  target :: TypeScriptVersion
  v3_7 :: TypeScriptVersion

definition getText :: "expr \<Rightarrow> (expr \<Rightarrow> string) \<Rightarrow> string" where
  "getText node sf = sf node"

text \<open>\<^verbatim>\<open>String.prototype.trim\<close> on a string of 8-bit characters: it strips space, tab,
  line feed, vertical tab, form feed, carriage return and the no-break space from both
  ends. The white space of the language beyond the 8-bit characters is outside the
  character type.\<close>

definition isWhiteSpace :: "char \<Rightarrow> bool" where
  "isWhiteSpace c =
     (c \<in> set [CHR '' '', CHR 0x09, CHR 0x0A, CHR 0x0B, CHR 0x0C, CHR 0x0D, CHR 0xA0])"

definition trim :: "string \<Rightarrow> string" where
  "trim s = rev (dropWhile isWhiteSpace (rev (dropWhile isWhiteSpace s)))"

section \<open>Structural equality\<close>

definition isEqualityExpression :: "env \<Rightarrow> expr \<Rightarrow> expr \<Rightarrow> bool" where
  "isEqualityExpression env lhs rhs =
     (if kind lhs \<noteq> kind rhs then False
      else if isIdentifier lhs \<and> isIdentifier rhs \<and> idText lhs = idText rhs then True
      else if trim (getText lhs (sourceFile env)) = trim (getText rhs (sourceFile env)) then True
      else False)"

section \<open>The optional-chain matcher\<close>

definition isChainableExpression :: "expr \<Rightarrow> bool" where
  "isChainableExpression expr =
     (isPropertyAccessExpression expr \<or> isElementAccessExpression expr \<or> isCallExpression expr)"

text \<open>The \<^verbatim>\<open>while\<close> loop of \<^verbatim>\<open>getOptionalChains\<close>: it walks down the left operands of
  \<^verbatim>\<open>&&\<close> and puts each right operand in front of the list (\<^verbatim>\<open>chains.unshift\<close>);
  \<open>None\<close> is the \<^verbatim>\<open>return undefined\<close> inside the loop.\<close>

fun getOptionalChains_while :: "expr \<Rightarrow> expr list \<Rightarrow> expr list option" where
  "getOptionalChains_while (Binary l AmpersandAmpersandToken r) chainList =
     (if \<not> isChainableExpression r then None
      else getOptionalChains_while l (r # chainList))"
| "getOptionalChains_while _ chainList = Some chainList"

text \<open>The \<^verbatim>\<open>for\<close> loop of \<^verbatim>\<open>getOptionalChains\<close>, from \<^verbatim>\<open>i = 1\<close>: \<open>prefix\<close> is the
  link before \<open>chain\<close>; \<open>False\<close> is the \<^verbatim>\<open>return undefined\<close> inside the loop.\<close>

fun getOptionalChains_for :: "env \<Rightarrow> expr \<Rightarrow> expr list \<Rightarrow> bool" where
  "getOptionalChains_for env prefix [] = True"
| "getOptionalChains_for env prefix (chain # rest) =
     (if \<not> isEqualityExpression env prefix (expression chain) then False
      else if isPropertyAccessExpression chain \<and> isPrivateIdentifier (name chain) then False
      else getOptionalChains_for env chain rest)"

definition getOptionalChains :: "env \<Rightarrow> expr \<Rightarrow> expr list option" where
  "getOptionalChains env expr =
     (case getOptionalChains_while expr [] of
        None \<Rightarrow> None
      | Some chainList \<Rightarrow>
          (case chainList of
             [] \<Rightarrow> None
           | prefix # rest \<Rightarrow>
               if getOptionalChains_for env prefix rest then Some chainList else None))"

section \<open>The nullish-guard classifier\<close>

text \<open>A result of type \<^verbatim>\<open>Expression | undefined\<close> is an \<open>option\<close>; a node is truthy, so
  \<^verbatim>\<open>x || y\<close> on such results is \<open>orElse\<close>.\<close>

definition orElse :: "'a option \<Rightarrow> 'a option \<Rightarrow> 'a option" where
  "orElse a b = (case a of Some x \<Rightarrow> Some x | None \<Rightarrow> b)"

definition binaryCompare ::
  "(expr \<Rightarrow> BinaryOperator \<Rightarrow> expr \<Rightarrow> expr option) \<Rightarrow>
     expr \<Rightarrow> BinaryOperator \<Rightarrow> expr \<Rightarrow> expr option" where
  "binaryCompare cb lhs operator rhs = orElse (cb lhs operator rhs) (cb rhs operator lhs)"

definition doEqualityOrNotToNullCompare :: "expr \<Rightarrow> BinaryOperator \<Rightarrow> expr \<Rightarrow> expr option" where
  "doEqualityOrNotToNullCompare lhs operator rhs =
     (if (operator = EqualsEqualsToken \<or> operator = ExclamationEqualsToken) \<and>
         kind rhs = NullKeyword
      then Some lhs else None)"

definition doStrictEqualityOrNotToUndefinedCompare ::
  "expr \<Rightarrow> BinaryOperator \<Rightarrow> expr \<Rightarrow> expr option" where
  "doStrictEqualityOrNotToUndefinedCompare lhs operator rhs =
     (if (operator = EqualsEqualsEqualsToken \<or> operator = ExclamationEqualsEqualsToken) \<and>
         (kind rhs = UndefinedKeyword \<or> (isIdentifier rhs \<and> idText rhs = ''undefined''))
      then Some lhs else None)"

definition doStrictEqualityOrNotToNullCompare ::
  "expr \<Rightarrow> BinaryOperator \<Rightarrow> expr \<Rightarrow> expr option" where
  "doStrictEqualityOrNotToNullCompare lhs operator rhs =
     (if (operator = EqualsEqualsEqualsToken \<or> operator = ExclamationEqualsEqualsToken) \<and>
         kind rhs = NullKeyword
      then Some lhs else None)"

definition doStrictEqualityOrNotToVoidExpressionCompare ::
  "expr \<Rightarrow> BinaryOperator \<Rightarrow> expr \<Rightarrow> expr option" where
  "doStrictEqualityOrNotToVoidExpressionCompare lhs operator rhs =
     (if (operator = EqualsEqualsEqualsToken \<or> operator = ExclamationEqualsEqualsToken) \<and>
         isVoidExpression rhs
      then Some lhs else None)"

definition isEqualityOrNotToNull :: "expr \<Rightarrow> expr option" where
  "isEqualityOrNotToNull expr =
     binaryCompare doEqualityOrNotToNullCompare
       (skipParens (left expr)) (operatorToken expr) (skipParens (right expr))"

definition isStrictEqualityOrNotToUndefined :: "expr \<Rightarrow> expr option" where
  "isStrictEqualityOrNotToUndefined expr =
     binaryCompare doStrictEqualityOrNotToUndefinedCompare
       (skipParens (left expr)) (operatorToken expr) (skipParens (right expr))"

definition isStrictEqualityOrNotToNull :: "expr \<Rightarrow> expr option" where
  "isStrictEqualityOrNotToNull expr =
     binaryCompare doStrictEqualityOrNotToNullCompare
       (skipParens (left expr)) (operatorToken expr) (skipParens (right expr))"

definition isStrictEqualityOrNotToVoidExpression :: "expr \<Rightarrow> expr option" where
  "isStrictEqualityOrNotToVoidExpression expr =
     binaryCompare doStrictEqualityOrNotToVoidExpressionCompare
       (skipParens (left expr)) (operatorToken expr) (skipParens (right expr))"

definition isNullableEqualityExpression :: "expr \<Rightarrow> expr option" where
  "isNullableEqualityExpression expr =
     orElse (isEqualityOrNotToNull expr)
       (orElse (isStrictEqualityOrNotToNull expr)
          (orElse (isStrictEqualityOrNotToUndefined expr)
             (isStrictEqualityOrNotToVoidExpression expr)))"

definition isBinaryNullableEqualityOrNotExpression :: "env \<Rightarrow> expr \<Rightarrow> expr option" where
  "isBinaryNullableEqualityOrNotExpression env expr =
     (if operatorToken expr \<noteq> BarBarToken \<and> operatorToken expr \<noteq> AmpersandAmpersandToken
      then None
      else if \<not> isBinaryExpression (left expr) \<or> \<not> isBinaryExpression (right expr)
      then None
      else case isNullableEqualityExpression (left expr) of
             None \<Rightarrow> None
           | Some l \<Rightarrow>
               (case isNullableEqualityExpression (right expr) of
                  None \<Rightarrow> None
                | Some r \<Rightarrow> if isEqualityExpression env l r then Some l else None))"

section \<open>The nullish-coalescing matcher\<close>

definition getNullableConditionTarget :: "env \<Rightarrow> expr \<Rightarrow> expr option" where
  "getNullableConditionTarget env expr =
     (let cond = skipParens (condition expr) in
      if isBinaryExpression cond then
        (case isNullableEqualityExpression cond of
           Some t \<Rightarrow> Some t
         | None \<Rightarrow>
             (case isBinaryNullableEqualityOrNotExpression env cond of
                Some t \<Rightarrow> Some t
              | None \<Rightarrow> Some cond))
      else Some cond)"

text \<open>
  \<^verbatim>\<open>upgradeConditionalExpression\<close> compares node references:
  \<^verbatim>\<open>skipParens(expr.whenTrue) === condBranch\<close>. The reference \<^verbatim>\<open>condBranch\<close> comes from
  \<^verbatim>\<open>getNullishTargetBranch\<close>, which returns \<^verbatim>\<open>cond.whenFalse\<close> or \<^verbatim>\<open>cond.whenTrue\<close>. A
  reference to a node below one of the two branches is modelled as the branch together
  with the node, so that nodes of equal structure in different branches stay different
  references.
\<close>

datatype branch = WhenTrue | WhenFalse

definition getNullishTargetBranch :: "expr \<Rightarrow> (branch \<times> expr) option" where
  "getNullishTargetBranch cond =
     (if isBinaryExpression (condition cond) then
        (case operatorToken (condition cond) of
           EqualsEqualsToken \<Rightarrow> Some (WhenFalse, whenFalse cond)
         | EqualsEqualsEqualsToken \<Rightarrow> Some (WhenFalse, whenFalse cond)
         | BarBarToken \<Rightarrow> Some (WhenFalse, whenFalse cond)
         | ExclamationEqualsToken \<Rightarrow> Some (WhenTrue, whenTrue cond)
         | ExclamationEqualsEqualsToken \<Rightarrow> Some (WhenTrue, whenTrue cond)
         | AmpersandAmpersandToken \<Rightarrow> Some (WhenTrue, whenTrue cond)
         | _ \<Rightarrow> None)
      else None)"

definition getNullishCondBranch :: "env \<Rightarrow> expr \<Rightarrow> expr \<Rightarrow> (branch \<times> expr) option" where
  "getNullishCondBranch env cond nullableConditionTarget =
     (case getNullishTargetBranch cond of
        None \<Rightarrow> None
      | Some (b, tgt) \<Rightarrow>
          (let lhs = skipParens tgt; rhs = skipParens nullableConditionTarget in
           if isEqualityExpression env lhs rhs then Some (b, lhs) else None))"

section \<open>The visitor\<close>

text \<open>
  \<^verbatim>\<open>visitor\<close> and the functions it calls are mutually recursive, and the rewrite
  functions visit nodes they have just built (\<^verbatim>\<open>visitEachChild(left, visitor, context)\<close>
  on the chain built so far). \<^verbatim>\<open>visitEachChild\<close> of the \<^verbatim>\<open>typescript\<close> package applies
  the visitor to every child of a node and rebuilds the node; \<^verbatim>\<open>visitNodes\<close> applies it
  to every node of a list. A thrown error is \<open>Inl\<close>; the first one ends the evaluation.
  The \<^verbatim>\<open>for\<close> loop of \<^verbatim>\<open>createOptionalChains\<close> is \<open>createOptionalChains_for\<close>.
\<close>

function (sequential) visitor :: "env \<Rightarrow> expr \<Rightarrow> error + expr"
  and upgradeConditionalExpression :: "env \<Rightarrow> expr \<Rightarrow> error + expr"
  and upgradeBinaryExpression :: "env \<Rightarrow> expr \<Rightarrow> error + expr"
  and createOptionalChains :: "env \<Rightarrow> expr list \<Rightarrow> error + expr"
  and createOptionalChains_for :: "env \<Rightarrow> expr list \<Rightarrow> expr \<Rightarrow> error + expr"
  and createOptionalChainByChainableExpression :: "env \<Rightarrow> expr \<Rightarrow> expr \<Rightarrow> error + expr"
  and visitEachChild :: "env \<Rightarrow> expr \<Rightarrow> error + expr"
  and visitNodes :: "env \<Rightarrow> expr list \<Rightarrow> error + expr list"
where
  "visitor env node =
     (case kind node of
        ConditionalExpression \<Rightarrow> upgradeConditionalExpression env node
      | BinaryExpression \<Rightarrow> upgradeBinaryExpression env node
      | _ \<Rightarrow> visitEachChild env node)"
| "upgradeConditionalExpression env (Conditional c t f) =
     (if v3_7 env \<le> target env then
        (case getNullableConditionTarget env (Conditional c t f) of
           None \<Rightarrow> visitEachChild env (Conditional c t f)
         | Some nullableConditionTarget \<Rightarrow>
             (case getNullishCondBranch env (Conditional c t f) nullableConditionTarget of
                None \<Rightarrow> visitEachChild env (Conditional c t f)
              | Some condBranch \<Rightarrow>
                  (case visitEachChild env nullableConditionTarget of
                     Inl err \<Rightarrow> Inl err
                   | Inr lhs \<Rightarrow>
                       (case visitEachChild env
                               (if (WhenTrue, skipParens t) = condBranch then f else t) of
                          Inl err \<Rightarrow> Inl err
                        | Inr rhs \<Rightarrow> Inr (createNullishCoalesce lhs rhs)))))
      else visitEachChild env (Conditional c t f))"
| "upgradeConditionalExpression env _ = Inl IllTyped"
| "upgradeBinaryExpression env (Binary l op r) =
     (case getOptionalChains env (Binary l op r) of
        Some optionalChains \<Rightarrow> createOptionalChains env optionalChains
      | None \<Rightarrow> visitEachChild env (Binary l op r))"
| "upgradeBinaryExpression env _ = Inl IllTyped"
| "createOptionalChains env [] = Inl IllTyped"
| "createOptionalChains env (fistChain # rest) =
     (if \<not> isChainableExpression fistChain then Inl IllTyped
      else case createOptionalChainByChainableExpression env fistChain (expression fistChain) of
             Inl err \<Rightarrow> Inl err
           | Inr lastChain \<Rightarrow> createOptionalChains_for env rest lastChain)"
| "createOptionalChains_for env [] lastChain = Inr lastChain"
| "createOptionalChains_for env (chain # rest) lastChain =
     (case createOptionalChainByChainableExpression env chain lastChain of
        Inl err \<Rightarrow> Inl err
      | Inr lastChain' \<Rightarrow> createOptionalChains_for env rest lastChain')"
| "createOptionalChainByChainableExpression env (PropertyAccess e q n) lhs =
     (case visitEachChild env lhs of
        Inl err \<Rightarrow> Inl err
      | Inr lhs' \<Rightarrow>
          (case cast n isIdentifierName of
             Inl err \<Rightarrow> Inl err
           | Inr n' \<Rightarrow> Inr (createPropertyAccessChain lhs' True n')))"
| "createOptionalChainByChainableExpression env (ElementAccess e q a) lhs =
     (case visitEachChild env lhs of
        Inl err \<Rightarrow> Inl err
      | Inr lhs' \<Rightarrow>
          (case visitEachChild env a of
             Inl err \<Rightarrow> Inl err
           | Inr a' \<Rightarrow> Inr (createElementAccessChain lhs' True a')))"
| "createOptionalChainByChainableExpression env (Call f q ta args) lhs =
     (case visitEachChild env lhs of
        Inl err \<Rightarrow> Inl err
      | Inr lhs' \<Rightarrow>
          (case visitNodes env args of
             Inl err \<Rightarrow> Inl err
           | Inr args' \<Rightarrow> Inr (createCallChain lhs' True ta args')))"
| "createOptionalChainByChainableExpression env _ lhs = Inl IllTyped"
| "visitEachChild env (Paren e) =
     (case visitor env e of Inl err \<Rightarrow> Inl err | Inr e' \<Rightarrow> Inr (Paren e'))"
| "visitEachChild env (Void e) =
     (case visitor env e of Inl err \<Rightarrow> Inl err | Inr e' \<Rightarrow> Inr (Void e'))"
| "visitEachChild env (PropertyAccess e q n) =
     (case visitor env e of Inl err \<Rightarrow> Inl err | Inr e' \<Rightarrow> Inr (PropertyAccess e' q n))"
| "visitEachChild env (ElementAccess e q a) =
     (case visitor env e of Inl err \<Rightarrow> Inl err
      | Inr e' \<Rightarrow> (case visitor env a of Inl err \<Rightarrow> Inl err | Inr a' \<Rightarrow> Inr (ElementAccess e' q a')))"
| "visitEachChild env (Call f q ta args) =
     (case visitor env f of Inl err \<Rightarrow> Inl err
      | Inr f' \<Rightarrow> (case visitNodes env args of Inl err \<Rightarrow> Inl err | Inr args' \<Rightarrow> Inr (Call f' q ta args')))"
| "visitEachChild env (Binary l op r) =
     (case visitor env l of Inl err \<Rightarrow> Inl err
      | Inr l' \<Rightarrow> (case visitor env r of Inl err \<Rightarrow> Inl err | Inr r' \<Rightarrow> Inr (Binary l' op r')))"
| "visitEachChild env (Conditional c t f) =
     (case visitor env c of Inl err \<Rightarrow> Inl err
      | Inr c' \<Rightarrow> (case visitor env t of Inl err \<Rightarrow> Inl err
         | Inr t' \<Rightarrow> (case visitor env f of Inl err \<Rightarrow> Inl err | Inr f' \<Rightarrow> Inr (Conditional c' t' f'))))"
| "visitEachChild env node = Inr node"
| "visitNodes env [] = Inr []"
| "visitNodes env (n # ns) =
     (case visitor env n of Inl err \<Rightarrow> Inl err
      | Inr n' \<Rightarrow> (case visitNodes env ns of Inl err \<Rightarrow> Inl err | Inr ns' \<Rightarrow> Inr (n' # ns')))"
  by pat_completeness auto

text \<open>The number of nodes of an expression, and the part of a chain link outside its
  receiver: the measures of the termination proof.\<close>

fun nsize :: "expr \<Rightarrow> nat" where
  "nsize (Paren e) = 1 + nsize e"
| "nsize (Void e) = 1 + nsize e"
| "nsize (PropertyAccess e q n) = 2 + nsize e"
| "nsize (ElementAccess e q a) = 1 + nsize e + nsize a"
| "nsize (Call f q ta args) = 2 + nsize f + sum_list (map nsize args)"
| "nsize (Binary l op r) = 1 + nsize l + nsize r"
| "nsize (Conditional c t f) = 1 + nsize c + nsize t + nsize f"
| "nsize _ = 1"

fun weight :: "expr \<Rightarrow> nat" where
  "weight (PropertyAccess e q n) = 2"
| "weight (ElementAccess e q a) = 1 + nsize a"
| "weight (Call f q ta args) = 2 + sum_list (map nsize args)"
| "weight _ = 0"

abbreviation "tdom \<equiv> visitor_upgradeConditionalExpression_upgradeBinaryExpression_createOptionalChains_createOptionalChains_for_createOptionalChainByChainableExpression_visitEachChild_visitNodes_dom"

section \<open>The driver\<close>

text \<open>
  \<^verbatim>\<open>upgrade(code, target)\<close> runs passes while \<^verbatim>\<open>needAnotherPass\<close> holds. One pass parses
  the file of the virtual host, lets \<^verbatim>\<open>visit\<close> record changes in a
  \<^verbatim>\<open>ProxyChangesTracker\<close>, applies the changes to the text and writes the text back.
  \<^verbatim>\<open>visit\<close> and \<^verbatim>\<open>ProxyChangesTracker\<close> are modules outside \<^verbatim>\<open>src/\<close>, and the program,
  the change tracker and \<^verbatim>\<open>textChanges.applyChanges\<close> belong to the \<^verbatim>\<open>typescript\<close>
  package. They are parameters of the model: \<open>changeTrackerWith file target\<close> is the list
  of changes of one pass over the text \<open>file\<close> together with the value of
  \<^verbatim>\<open>needAnotherPass()\<close> after it, and \<open>applyChanges\<close> applies one element of that list.
\<close>

record 'c collaborators =
  changeTrackerWith :: "string \<Rightarrow> TypeScriptVersion \<Rightarrow> 'c list \<times> bool"
  applyChanges :: "string \<Rightarrow> 'c \<Rightarrow> string"

text \<open>The \<^verbatim>\<open>while (needAnotherPass)\<close> loop; \<open>file\<close> is the content of the host's file and
  \<open>i\<close> the pass counter that the loop logs. Not returning is the value \<open>None\<close>.\<close>

partial_function (option) upgrade_while ::
  "'c collaborators \<Rightarrow> TypeScriptVersion \<Rightarrow> string \<Rightarrow> nat \<Rightarrow> (string \<times> nat) option" where
  "upgrade_while ext tgt file i =
     (let text = file;
          (changes, needAnotherPass) = changeTrackerWith ext file tgt;
          text' = foldl (applyChanges ext) text changes
      in if needAnotherPass then upgrade_while ext tgt text' (i + 1)
         else Some (text', i + 1))"

definition upgrade :: "'c collaborators \<Rightarrow> string \<Rightarrow> TypeScriptVersion \<Rightarrow> string option" where
  "upgrade ext code tgt = map_option fst (upgrade_while ext tgt code 0)"

text \<open>The text of the host's file after \<open>k\<close> passes.\<close>

primrec textAfter :: "'c collaborators \<Rightarrow> TypeScriptVersion \<Rightarrow> string \<Rightarrow> nat \<Rightarrow> string" where
  "textAfter ext tgt code 0 = code"
| "textAfter ext tgt code (Suc k) =
     foldl (applyChanges ext) (textAfter ext tgt code k)
       (fst (changeTrackerWith ext (textAfter ext tgt code k) tgt))"

text \<open>
  Modelled from the spec: \<^verbatim>\<open>ProxyChangesTracker.needAnotherPass\<close> is outside \<^verbatim>\<open>src/\<close>.
  The spec's driver records "whether at least one replacement occurred this pass" and,
  "if zero replacements occurred", returns the current text: a pass that does not ask for
  another pass has made no change.
\<close>

definition reportsReplacements :: "'c collaborators \<Rightarrow> TypeScriptVersion \<Rightarrow> bool" where
  "reportsReplacements ext tgt =
     (\<forall>file. \<not> snd (changeTrackerWith ext file tgt) \<longrightarrow> fst (changeTrackerWith ext file tgt) = [])"

text \<open>\<^verbatim>\<open>textChanges.applyChanges\<close> for a single edit \<open>(start, length, newText)\<close>, for
  the examples.\<close>

definition applyTextChange :: "string \<Rightarrow> nat \<times> nat \<times> string \<Rightarrow> string" where
  "applyTextChange s c =
     (case c of (start, len, newText) \<Rightarrow> take start s @ newText @ drop (start + len) s)"

text \<open>A pass for the examples: it rewrites the text \<^verbatim>\<open>a && a.b\<close> to \<^verbatim>\<open>a?.b\<close> by one
  edit and asks for another pass; on every other text it makes no change and asks for
  none.\<close>

definition onePassExample :: "(nat \<times> nat \<times> string) collaborators" where
  "onePassExample =
     \<lparr>changeTrackerWith =
        (\<lambda>file tgt. if file = ''a && a.b'' then ([(0, 8, ''a?.b'')], True) else ([], False)),
      applyChanges = applyTextChange\<rparr>"

text \<open>A pass for the examples that never comes to rest: on every text it inserts a
  character and asks for another pass.\<close>

definition restlessExample :: "(nat \<times> nat \<times> string) collaborators" where
  "restlessExample =
     \<lparr>changeTrackerWith = (\<lambda>file tgt. ([(0, 0, ''!'')], True)),
      applyChanges = applyTextChange\<rparr>"

section \<open>A source file in the printer's layout\<close>

text \<open>The text of each node of a source file that is written the way the printer of the
  \<^verbatim>\<open>typescript\<close> package lays expressions out, for the examples.\<close>

fun tokenText :: "BinaryOperator \<Rightarrow> string" where
  "tokenText AmpersandAmpersandToken = ''&&''"
| "tokenText BarBarToken = ''||''"
| "tokenText EqualsEqualsToken = ''==''"
| "tokenText EqualsEqualsEqualsToken = ''===''"
| "tokenText ExclamationEqualsToken = ''!=''"
| "tokenText ExclamationEqualsEqualsToken = ''!==''"
| "tokenText QuestionQuestionToken = ''??''"
| "tokenText PlusToken = ''+''"

fun nameText :: "MemberName \<Rightarrow> string" where
  "nameText (Name s) = s"
| "nameText (PrivateName s) = CHR ''#'' # s"

fun commaList :: "string list \<Rightarrow> string" where
  "commaList [] = []"
| "commaList [s] = s"
| "commaList (s # ss) = s @ '', '' @ commaList ss"

fun printedText :: "expr \<Rightarrow> string" where
  "printedText (Ident s) = s"
| "printedText Null = ''null''"
| "printedText Undefined = ''undefined''"
| "printedText (StringLit s) = [CHR 0x22] @ s @ [CHR 0x22]"
| "printedText (NumericLit s) = s"
| "printedText (Paren e) = ''('' @ printedText e @ '')''"
| "printedText (Void e) = ''void '' @ printedText e"
| "printedText (PropertyAccess e q n) =
     printedText e @ (if q then ''?.'' else ''.'') @ nameText n"
| "printedText (ElementAccess e q a) =
     printedText e @ (if q then ''?.['' else ''['') @ printedText a @ '']''"
| "printedText (Call f q ta args) =
     printedText f @ (if q then ''?.'' else []) @
     (if ta = [] then [] else ''<'' @ commaList ta @ ''>'') @
     ''('' @ commaList (map printedText args) @ '')''"
| "printedText (Binary l op r) = printedText l @ '' '' @ tokenText op @ '' '' @ printedText r"
| "printedText (Conditional c t f) =
     printedText c @ '' ? '' @ printedText t @ '' : '' @ printedText f"

section \<open>Termination of the visitor\<close>

lemma nsize_pos: "0 < nsize e"
  by (cases e) simp_all

lemma nsize_skipParens: "nsize (skipParens e) \<le> nsize e"
  by (induction e rule: skipParens.induct) simp_all

lemma isChainableExpression_cases:
  "isChainableExpression c \<Longrightarrow>
     (\<exists>e q n. c = PropertyAccess e q n) \<or> (\<exists>e q a. c = ElementAccess e q a) \<or>
     (\<exists>f q ta args. c = Call f q ta args)"
  by (cases c)
     (simp_all add: isChainableExpression_def isPropertyAccessExpression_def
        isElementAccessExpression_def isCallExpression_def)

lemma nsize_chainable: "isChainableExpression c \<Longrightarrow> nsize c = nsize (expression c) + weight c"
  by (auto dest!: isChainableExpression_cases)

lemma weight_le: "weight c \<le> nsize c"
  by (cases c) simp_all

lemma sum_weight_le: "sum_list (map weight cs) \<le> sum_list (map nsize cs)"
  by (induction cs) (simp_all add: add_mono weight_le)

lemma getOptionalChains_while_size:
  "getOptionalChains_while e acc = Some cs \<Longrightarrow>
     sum_list (map nsize cs) < nsize e + sum_list (map nsize acc)"
proof (induction e acc rule: getOptionalChains_while.induct)
  case (1 l r chainList)
  then show ?case by (auto split: if_splits)
qed (use nsize_pos in \<open>auto simp: less_add_same_cancel2\<close>)

lemma getOptionalChains_size:
  assumes "getOptionalChains env e = Some (c # rest)"
  shows "nsize c + sum_list (map weight rest) < nsize e"
proof -
  from assms have "getOptionalChains_while e [] = Some (c # rest)"
    by (auto simp: getOptionalChains_def split: option.splits list.splits if_splits)
  from getOptionalChains_while_size[OF this]
  have "nsize c + sum_list (map nsize rest) < nsize e" by simp
  with sum_weight_le[of rest] show ?thesis by linarith
qed

lemma isNullableEqualityExpression_result:
  "isNullableEqualityExpression e = Some t \<Longrightarrow>
     t = skipParens (left e) \<or> t = skipParens (right e)"
  unfolding isNullableEqualityExpression_def orElse_def isEqualityOrNotToNull_def
    isStrictEqualityOrNotToNull_def isStrictEqualityOrNotToUndefined_def
    isStrictEqualityOrNotToVoidExpression_def binaryCompare_def
    doEqualityOrNotToNullCompare_def doStrictEqualityOrNotToNullCompare_def
    doStrictEqualityOrNotToUndefinedCompare_def doStrictEqualityOrNotToVoidExpressionCompare_def
  by (auto split: option.splits if_splits)

lemma isNullableEqualityExpression_size:
  "isNullableEqualityExpression (Binary l op r) = Some t \<Longrightarrow> nsize t < nsize (Binary l op r)"
  using isNullableEqualityExpression_result[of "Binary l op r" t]
    nsize_skipParens[of l] nsize_skipParens[of r] by auto

lemma isBinaryExpression_cases: "isBinaryExpression e \<Longrightarrow> \<exists>l op r. e = Binary l op r"
  by (cases e) (simp_all add: isBinaryExpression_def)

lemma isBinaryNullableEqualityOrNotExpression_size:
  "isBinaryNullableEqualityOrNotExpression env (Binary l op r) = Some t \<Longrightarrow>
     nsize t < nsize (Binary l op r)"
  unfolding isBinaryNullableEqualityOrNotExpression_def
  by (auto split: if_splits option.splits dest!: isBinaryExpression_cases
        dest: isNullableEqualityExpression_size)

lemma getNullableConditionTarget_size:
  assumes "getNullableConditionTarget env (Conditional c t f) = Some x"
  shows "nsize x \<le> nsize c"
proof (cases "isBinaryExpression (skipParens c)")
  case True
  then obtain l op r where b: "skipParens c = Binary l op r"
    by (auto dest: isBinaryExpression_cases)
  from assms have "x = Binary l op r \<or> isNullableEqualityExpression (Binary l op r) = Some x \<or>
      isBinaryNullableEqualityOrNotExpression env (Binary l op r) = Some x"
    by (simp add: getNullableConditionTarget_def Let_def b split: option.splits if_splits)
  then have "nsize x \<le> nsize (Binary l op r)"
    using isNullableEqualityExpression_size[of l op r x]
      isBinaryNullableEqualityOrNotExpression_size[of env l op r x] by auto
  with nsize_skipParens[of c] b show ?thesis by simp
next
  case False
  with assms nsize_skipParens[of c] show ?thesis
    by (auto simp: getNullableConditionTarget_def Let_def)
qed

lemma size_bounds:
  "tdom (Inl (Inl (Inl (env, node)))) \<Longrightarrow> (\<forall>y. visitor env node = Inr y \<longrightarrow> nsize y \<le> nsize node)"
  "tdom (Inl (Inl (Inr (env, node)))) \<Longrightarrow> (\<forall>y. upgradeConditionalExpression env node = Inr y \<longrightarrow> nsize y \<le> nsize node)"
  "tdom (Inl (Inr (Inl (env, node)))) \<Longrightarrow> (\<forall>y. upgradeBinaryExpression env node = Inr y \<longrightarrow> nsize y \<le> nsize node)"
  "tdom (Inl (Inr (Inr (env, cs)))) \<Longrightarrow> (\<forall>y. createOptionalChains env cs = Inr y \<longrightarrow> nsize y \<le> nsize (hd cs) + sum_list (map weight (tl cs)))"
  "tdom (Inr (Inl (Inl (env, cs, lastChain)))) \<Longrightarrow> (\<forall>y. createOptionalChains_for env cs lastChain = Inr y \<longrightarrow> nsize y \<le> nsize lastChain + sum_list (map weight cs))"
  "tdom (Inr (Inl (Inr (env, c, lhs)))) \<Longrightarrow> (\<forall>y. createOptionalChainByChainableExpression env c lhs = Inr y \<longrightarrow> nsize y \<le> nsize lhs + weight c)"
  "tdom (Inr (Inr (Inl (env, node)))) \<Longrightarrow> (\<forall>y. visitEachChild env node = Inr y \<longrightarrow> nsize y \<le> nsize node)"
  "tdom (Inr (Inr (Inr (env, ns)))) \<Longrightarrow> (\<forall>ys. visitNodes env ns = Inr ys \<longrightarrow> sum_list (map nsize ys) \<le> sum_list (map nsize ns))"
proof (induct rule: visitor_upgradeConditionalExpression_upgradeBinaryExpression_createOptionalChains_createOptionalChains_for_createOptionalChainByChainableExpression_visitEachChild_visitNodes.pinduct)
  case (1 env node)
  then show ?case
    by (simp add: visitor.psimps split: SyntaxKind.splits)
next
  case (2 env c t f)
  show ?case
  proof (intro allI impI)
    fix y assume y: "upgradeConditionalExpression env (Conditional c t f) = Inr y"
    note ps = upgradeConditionalExpression.psimps(1)[OF 2(1)]
    show "nsize y \<le> nsize (Conditional c t f)"
    proof (cases "v3_7 env \<le> target env")
      case False
      with y ps 2(6) show ?thesis by simp
    next
      case v: True
      show ?thesis
      proof (cases "getNullableConditionTarget env (Conditional c t f)")
        case None
        with y ps v 2(2) show ?thesis by simp
      next
        case (Some x2)
        note x2 = this
        show ?thesis
        proof (cases "getNullishCondBranch env (Conditional c t f) x2")
          case None
          with y ps v x2 2(3) show ?thesis by simp
        next
          case (Some x2a)
          from y ps v x2 Some obtain l r where
            l: "visitEachChild env x2 = Inr l" and
            r: "visitEachChild env (if (WhenTrue, skipParens t) = x2a then f else t) = Inr r" and
            yy: "y = createNullishCoalesce l r"
            by (auto split: sum.splits)
          from 2(4)[OF v x2 Some] l have "nsize l \<le> nsize x2" by simp
          moreover from 2(5)[OF v x2 Some l] r
          have "nsize r \<le> nsize (if (WhenTrue, skipParens t) = x2a then f else t)" by simp
          moreover have "nsize x2 \<le> nsize c" using getNullableConditionTarget_size[OF x2] .
          ultimately show ?thesis using yy
            by (auto simp: createNullishCoalesce_def split: if_splits)
        qed
      qed
    qed
  qed
next
  case (4 env l op r)
  show ?case
  proof (intro allI impI)
    fix y assume y: "upgradeBinaryExpression env (Binary l op r) = Inr y"
    note ps = upgradeBinaryExpression.psimps(1)[OF 4(1)]
    show "nsize y \<le> nsize (Binary l op r)"
    proof (cases "getOptionalChains env (Binary l op r)")
      case None
      with y ps 4(2) show ?thesis by simp
    next
      case (Some cs)
      then obtain c0 rest where cs: "cs = c0 # rest"
        by (cases cs) (auto simp: getOptionalChains_def split: option.splits list.splits if_splits)
      from 4(3)[OF Some] y ps Some cs
      have "nsize y \<le> nsize c0 + sum_list (map weight rest)" by simp
      with getOptionalChains_size[of env "Binary l op r" c0 rest] Some cs show ?thesis by simp
    qed
  qed
next
  case (7 env fistChain rest)
  show ?case
  proof (intro allI impI)
    fix y assume y: "createOptionalChains env (fistChain # rest) = Inr y"
    note ps = createOptionalChains.psimps(2)[OF 7(1)]
    from y ps have ch: "isChainableExpression fistChain" by (auto split: if_splits)
    with y ps obtain lastChain where
      lc: "createOptionalChainByChainableExpression env fistChain (expression fistChain) = Inr lastChain"
      and yy: "createOptionalChains_for env rest lastChain = Inr y"
      by (auto split: sum.splits)
    from 7(2) ch lc have "nsize lastChain \<le> nsize (expression fistChain) + weight fistChain" by simp
    moreover from 7(3) ch lc yy have "nsize y \<le> nsize lastChain + sum_list (map weight rest)" by simp
    ultimately show "nsize y \<le> nsize (hd (fistChain # rest)) + sum_list (map weight (tl (fistChain # rest)))"
      using nsize_chainable[OF ch] by simp
  qed
qed (fastforce simp: upgradeConditionalExpression.psimps upgradeBinaryExpression.psimps
       createOptionalChains.psimps createOptionalChains_for.psimps
       createOptionalChainByChainableExpression.psimps visitEachChild.psimps visitNodes.psimps
       cast_def createPropertyAccessChain_def createElementAccessChain_def createCallChain_def
       split: sum.splits if_splits)+

termination visitor
  apply (relation "inv_image (less_than <*lex*> less_than) (\<lambda>x. case x of
       Inl (Inl (Inl (env, node))) \<Rightarrow> (nsize node, 3)
     | Inl (Inl (Inr (env, node))) \<Rightarrow> (nsize node, 2)
     | Inl (Inr (Inl (env, node))) \<Rightarrow> (nsize node, 2)
     | Inl (Inr (Inr (env, cs))) \<Rightarrow>
         (case cs of [] \<Rightarrow> 0 | c # rest \<Rightarrow> nsize c + sum_list (map weight rest), 1 + length cs)
     | Inr (Inl (Inl (env, cs, lastChain))) \<Rightarrow>
         (nsize lastChain + sum_list (map weight cs), 1 + length cs)
     | Inr (Inl (Inr (env, c, lhs))) \<Rightarrow> (nsize lhs + weight c, 0)
     | Inr (Inr (Inl (env, node))) \<Rightarrow> (nsize node, 1)
     | Inr (Inr (Inr (env, ns))) \<Rightarrow> (1 + sum_list (map nsize ns), 0))")
  apply simp_all
  subgoal by (intro wf_inv_image wf_lex_prod wf_less_than)
  subgoal for env c t f x2 x2a
    using getNullableConditionTarget_size[of env c t f x2] by simp
  subgoal for env l op r x2
    using getOptionalChains_size[of env "Binary l op r"] by (cases x2) auto
  subgoal for fistChain rest
    using nsize_chainable[of fistChain] by auto
  subgoal for env fistChain b
    using size_bounds(6)[of env fistChain "expression fistChain"] nsize_chainable[of fistChain]
    by auto
  subgoal for rest by auto
  subgoal for env chain lastChain b
    using size_bounds(6)[of env chain lastChain] by auto
  subgoal for env n b by (rule nsize_pos)
  done

section \<open>Evaluation lemmas\<close>

lemmas kind_defs = isChainableExpression_def isPropertyAccessExpression_def
  isElementAccessExpression_def isCallExpression_def isBinaryExpression_def isIdentifier_def
  isVoidExpression_def isParenthesizedExpression_def isIdentifierName_def isPrivateIdentifier_def

lemmas factory_defs = createNullishCoalesce_def createPropertyAccessChain_def
  createElementAccessChain_def createCallChain_def

lemmas classifier_defs = isNullableEqualityExpression_def orElse_def isEqualityOrNotToNull_def
  isStrictEqualityOrNotToNull_def isStrictEqualityOrNotToUndefined_def
  isStrictEqualityOrNotToVoidExpression_def binaryCompare_def
  doEqualityOrNotToNullCompare_def doStrictEqualityOrNotToNullCompare_def
  doStrictEqualityOrNotToUndefinedCompare_def doStrictEqualityOrNotToVoidExpressionCompare_def
  isBinaryNullableEqualityOrNotExpression_def

section \<open>The errors of the visitor\<close>

text \<open>The calls that the static types of the source exclude do not occur: the chains
  that \<^verbatim>\<open>getOptionalChains\<close> returns are non-empty lists of chainable expressions, and
  the only error the visitor can end in is the invalid cast of a private identifier,
  never \<open>IllTyped\<close>.\<close>

lemma getOptionalChains_while_chainable:
  "getOptionalChains_while e acc = Some cs \<Longrightarrow> \<forall>c\<in>set acc. isChainableExpression c \<Longrightarrow>
     \<forall>c\<in>set cs. isChainableExpression c"
  by (induction e acc rule: getOptionalChains_while.induct) (auto split: if_splits)

lemma getOptionalChains_chainable:
  assumes "getOptionalChains env e = Some cs"
  shows "cs \<noteq> [] \<and> (\<forall>c\<in>set cs. isChainableExpression c)"
proof -
  from assms have w: "getOptionalChains_while e [] = Some cs" and ne: "cs \<noteq> []"
    by (auto simp: getOptionalChains_def split: option.splits list.splits if_splits)
  from getOptionalChains_while_chainable[OF w] ne show ?thesis by simp
qed

lemma nameKind_not_Identifier:
  "(nameKind n \<noteq> Identifier) = (nameKind n = PrivateIdentifier)"
  by (cases n) simp_all

lemma visitor_errors:
  "visitor env node = Inl err \<longrightarrow> err = InvalidCast PrivateIdentifier"
  "kind node = ConditionalExpression \<Longrightarrow>
     upgradeConditionalExpression env node = Inl err \<longrightarrow> err = InvalidCast PrivateIdentifier"
  "kind node = BinaryExpression \<Longrightarrow>
     upgradeBinaryExpression env node = Inl err \<longrightarrow> err = InvalidCast PrivateIdentifier"
  "cs \<noteq> [] \<Longrightarrow> \<forall>c\<in>set cs. isChainableExpression c \<Longrightarrow>
     createOptionalChains env cs = Inl err \<longrightarrow> err = InvalidCast PrivateIdentifier"
  "\<forall>c\<in>set cs. isChainableExpression c \<Longrightarrow>
     createOptionalChains_for env cs lastChain = Inl err \<longrightarrow> err = InvalidCast PrivateIdentifier"
  "isChainableExpression c \<Longrightarrow>
     createOptionalChainByChainableExpression env c lhs = Inl err \<longrightarrow>
     err = InvalidCast PrivateIdentifier"
  "visitEachChild env node = Inl err \<longrightarrow> err = InvalidCast PrivateIdentifier"
  "visitNodes env ns = Inl err \<longrightarrow> err = InvalidCast PrivateIdentifier"
proof (induction env node and env node and env node and env cs and env cs lastChain
    and env c lhs and env node and env ns
    rule: visitor_upgradeConditionalExpression_upgradeBinaryExpression_createOptionalChains_createOptionalChains_for_createOptionalChainByChainableExpression_visitEachChild_visitNodes.induct)
  case (1 env node)
  then show ?case by (simp split: SyntaxKind.splits)
next
  case (2 env c t f)
  show ?case
  proof (cases "v3_7 env \<le> target env")
    case False
    with 2(5) show ?thesis by simp
  next
    case v: True
    show ?thesis
    proof (cases "getNullableConditionTarget env (Conditional c t f)")
      case None
      with v 2(1) show ?thesis by simp
    next
      case (Some x2)
      note x2 = this
      show ?thesis
      proof (cases "getNullishCondBranch env (Conditional c t f) x2")
        case None
        with v x2 2(2) show ?thesis by simp
      next
        case (Some x2a)
        show ?thesis
        proof (cases "visitEachChild env x2")
          case (Inl e)
          with 2(3)[OF v x2 Some] v x2 Some show ?thesis by auto
        next
          case (Inr b)
          with 2(4)[OF v x2 Some Inr] v x2 Some show ?thesis
            by (auto split: sum.splits)
        qed
      qed
    qed
  qed
next
  case (4 env l op r)
  then show ?case
    by (auto split: option.splits dest: getOptionalChains_chainable)
qed (auto simp: kind_defs cast_def nameKind_not_Identifier split: sum.splits if_splits)

lemma visitor_throws_only_invalid_cast:
  "visitor env node = Inl err \<Longrightarrow> err = InvalidCast PrivateIdentifier"
  using visitor_errors(1) by blast

section \<open>The optional-chain rewrite\<close>

text \<open>
  Claim C4. One application of the visitor to
  \<^verbatim>\<open>a && a.b && a.b["c"] && a.b["c"]()\<close> gives \<^verbatim>\<open>a?.b?.["c"]?.()\<close>: the whole chain is
  collapsed by a single rewrite of the outermost \<^verbatim>\<open>&&\<close>, for every source file and
  target, and a second application leaves the result as it is. The first and the last
  conjunct give the texts of the two trees.
\<close>

theorem C4_long_chain_collapsed:
  "printedText
     (Binary
        (Binary
           (Binary (Ident ''a'') AmpersandAmpersandToken
              (PropertyAccess (Ident ''a'') False (Name ''b'')))
           AmpersandAmpersandToken
           (ElementAccess (PropertyAccess (Ident ''a'') False (Name ''b'')) False
              (StringLit ''c'')))
        AmpersandAmpersandToken
        (Call
           (ElementAccess (PropertyAccess (Ident ''a'') False (Name ''b'')) False
              (StringLit ''c''))
           False [] []))
     = ''a && a.b && a.b['' @ [CHR 0x22] @ ''c'' @ [CHR 0x22] @ ''] && a.b['' @
       [CHR 0x22] @ ''c'' @ [CHR 0x22] @ '']()'' \<and>
   visitor env
     (Binary
        (Binary
           (Binary (Ident ''a'') AmpersandAmpersandToken
              (PropertyAccess (Ident ''a'') False (Name ''b'')))
           AmpersandAmpersandToken
           (ElementAccess (PropertyAccess (Ident ''a'') False (Name ''b'')) False
              (StringLit ''c'')))
        AmpersandAmpersandToken
        (Call
           (ElementAccess (PropertyAccess (Ident ''a'') False (Name ''b'')) False
              (StringLit ''c''))
           False [] []))
     = Inr (Call
             (ElementAccess (PropertyAccess (Ident ''a'') True (Name ''b'')) True
                (StringLit ''c''))
             True [] []) \<and>
   visitor env
     (Call
        (ElementAccess (PropertyAccess (Ident ''a'') True (Name ''b'')) True (StringLit ''c''))
        True [] [])
     = Inr (Call
             (ElementAccess (PropertyAccess (Ident ''a'') True (Name ''b'')) True
                (StringLit ''c''))
             True [] []) \<and>
   printedText
     (Call
        (ElementAccess (PropertyAccess (Ident ''a'') True (Name ''b'')) True (StringLit ''c''))
        True [] [])
     = ''a?.b?.['' @ [CHR 0x22] @ ''c'' @ [CHR 0x22] @ '']?.()''"
  by (simp add: getOptionalChains_def isEqualityExpression_def kind_defs cast_def factory_defs)

lemma getOptionalChains_while_stop:
  "\<not> (isBinaryExpression x \<and> operatorToken x = AmpersandAmpersandToken) \<Longrightarrow>
     getOptionalChains_while x cs = Some cs"
  by (cases "(x, cs)" rule: getOptionalChains_while.cases) (simp_all add: kind_defs)

text \<open>
  Claim C3. For \<^verbatim>\<open>x && e\<close>, where \<open>x\<close> is not itself an \<^verbatim>\<open>&&\<close> expression and \<open>e\<close> is a
  member, element or call access whose name is not private, the matcher collects the
  chain \<open>[e]\<close> and compares nothing: the visitor builds the optional form of \<open>e\<close> on the
  visited children of \<open>e\<close>'s own receiver, and \<open>x\<close> does not occur in the result. This
  holds for every source file, so whatever the texts of \<open>x\<close> and of the receiver are.
\<close>

theorem C3_single_link_fires:
  assumes "\<not> (isBinaryExpression x \<and> operatorToken x = AmpersandAmpersandToken)"
    and "isChainableExpression e"
    and "\<not> (isPropertyAccessExpression e \<and> isPrivateIdentifier (name e))"
  shows "getOptionalChains env (Binary x AmpersandAmpersandToken e) = Some [e] \<and>
         visitor env (Binary x AmpersandAmpersandToken e) =
           (case visitEachChild env (expression e) of
              Inl err \<Rightarrow> Inl err
            | Inr root \<Rightarrow>
                (case e of
                   PropertyAccess _ _ n \<Rightarrow> Inr (PropertyAccess root True n)
                 | ElementAccess _ _ a \<Rightarrow>
                     (case visitEachChild env a of
                        Inl err \<Rightarrow> Inl err
                      | Inr a' \<Rightarrow> Inr (ElementAccess root True a'))
                 | Call _ _ ta args \<Rightarrow>
                     (case visitNodes env args of
                        Inl err \<Rightarrow> Inl err
                      | Inr args' \<Rightarrow> Inr (Call root True ta args'))
                 | _ \<Rightarrow> Inl IllTyped))"
proof -
  have chain: "getOptionalChains env (Binary x AmpersandAmpersandToken e) = Some [e]"
    using assms(1,2) by (simp add: getOptionalChains_def getOptionalChains_while_stop)
  from assms(2) consider
      (pa) recv q n where "e = PropertyAccess recv q n"
    | (ea) recv q a where "e = ElementAccess recv q a"
    | (ca) f q ta args where "e = Call f q ta args"
    by (auto dest: isChainableExpression_cases)
  then have "visitor env (Binary x AmpersandAmpersandToken e) =
           (case visitEachChild env (expression e) of
              Inl err \<Rightarrow> Inl err
            | Inr root \<Rightarrow>
                (case e of
                   PropertyAccess _ _ n \<Rightarrow> Inr (PropertyAccess root True n)
                 | ElementAccess _ _ a \<Rightarrow>
                     (case visitEachChild env a of
                        Inl err \<Rightarrow> Inl err
                      | Inr a' \<Rightarrow> Inr (ElementAccess root True a'))
                 | Call _ _ ta args \<Rightarrow>
                     (case visitNodes env args of
                        Inl err \<Rightarrow> Inl err
                      | Inr args' \<Rightarrow> Inr (Call root True ta args'))
                 | _ \<Rightarrow> Inl IllTyped))"
  proof cases
    case pa
    with assms(3) have "isIdentifierName n"
      by (cases n) (simp_all add: kind_defs)
    with pa chain show ?thesis
      by (simp add: kind_defs cast_def factory_defs split: sum.splits)
  next
    case ea
    with chain show ?thesis
      by (simp add: kind_defs factory_defs split: sum.splits)
  next
    case ca
    with chain show ?thesis
      by (simp add: kind_defs factory_defs split: sum.splits)
  qed
  with chain show ?thesis by simp
qed

text \<open>Witness for C3: \<^verbatim>\<open>x && a.b\<close> becomes \<^verbatim>\<open>a?.b\<close>.\<close>

theorem C3_single_link_fires_witness:
  "\<not> (isBinaryExpression (Ident ''x'') \<and> operatorToken (Ident ''x'') = AmpersandAmpersandToken) \<and>
   isChainableExpression (PropertyAccess (Ident ''a'') False (Name ''b'')) \<and>
   \<not> (isPropertyAccessExpression (PropertyAccess (Ident ''a'') False (Name ''b'')) \<and>
      isPrivateIdentifier (name (PropertyAccess (Ident ''a'') False (Name ''b'')))) \<and>
   getOptionalChains \<lparr>sourceFile = printedText, target = 0, v3_7 = 1\<rparr>
     (Binary (Ident ''x'') AmpersandAmpersandToken (PropertyAccess (Ident ''a'') False (Name ''b'')))
     = Some [PropertyAccess (Ident ''a'') False (Name ''b'')] \<and>
   visitor \<lparr>sourceFile = printedText, target = 0, v3_7 = 1\<rparr>
     (Binary (Ident ''x'') AmpersandAmpersandToken (PropertyAccess (Ident ''a'') False (Name ''b'')))
     = Inr (PropertyAccess (Ident ''a'') True (Name ''b''))"
proof -
  have h1: "\<not> (isBinaryExpression (Ident ''x'') \<and> operatorToken (Ident ''x'') = AmpersandAmpersandToken)"
    by (simp add: kind_defs)
  have h2: "isChainableExpression (PropertyAccess (Ident ''a'') False (Name ''b''))"
    by (simp add: kind_defs)
  have h3: "\<not> (isPropertyAccessExpression (PropertyAccess (Ident ''a'') False (Name ''b'')) \<and>
      isPrivateIdentifier (name (PropertyAccess (Ident ''a'') False (Name ''b''))))"
    by (simp add: kind_defs)
  show ?thesis
    using h1 h2 h3
      C3_single_link_fires [OF h1 h2 h3, of "\<lparr>sourceFile = printedText, target = 0, v3_7 = 1\<rparr>"]
    by (simp add: kind_defs cast_def factory_defs)
qed

lemma getOptionalChains_for_private:
  "c \<in> set rest \<Longrightarrow> isPropertyAccessExpression c \<Longrightarrow> isPrivateIdentifier (name c) \<Longrightarrow>
     \<not> getOptionalChains_for env prefix rest"
  by (induction rest arbitrary: prefix) auto

text \<open>
  Claim C1, amended. Let \<open>c0 # rest\<close> be the links that \<^verbatim>\<open>getOptionalChains\<close> collects at an
  \<^verbatim>\<open>&&\<close> node. When \<open>rest\<close>, the second and later links, has a member access with a private
  name, the optional-chain rewrite does not fire at that node: \<^verbatim>\<open>getOptionalChains\<close>
  returns no match, and the visitor goes on into the two operands.
\<close>

theorem C1_private_later_link_voids_match:
  assumes "getOptionalChains_while (Binary l op r) [] = Some (c0 # rest)"
    and "c \<in> set rest"
    and "isPropertyAccessExpression c"
    and "isPrivateIdentifier (name c)"
  shows "getOptionalChains env (Binary l op r) = None \<and>
         visitor env (Binary l op r) = visitEachChild env (Binary l op r)"
proof -
  from assms have "getOptionalChains env (Binary l op r) = None"
    by (simp add: getOptionalChains_def getOptionalChains_for_private)
  then show ?thesis by (simp del: visitEachChild.simps)
qed

text \<open>Witness for C1: at the outer \<^verbatim>\<open>&&\<close> of \<^verbatim>\<open>a && a.b && a.b.#c\<close> the collected links are
  \<^verbatim>\<open>a.b\<close> and \<^verbatim>\<open>a.b.#c\<close>, and there is no match.\<close>

theorem C1_private_later_link_voids_match_witness:
  "getOptionalChains_while
     (Binary
        (Binary (Ident ''a'') AmpersandAmpersandToken
           (PropertyAccess (Ident ''a'') False (Name ''b'')))
        AmpersandAmpersandToken
        (PropertyAccess (PropertyAccess (Ident ''a'') False (Name ''b'')) False (PrivateName ''c'')))
     []
     = Some [PropertyAccess (Ident ''a'') False (Name ''b''),
             PropertyAccess (PropertyAccess (Ident ''a'') False (Name ''b'')) False
               (PrivateName ''c'')] \<and>
   isPropertyAccessExpression
     (PropertyAccess (PropertyAccess (Ident ''a'') False (Name ''b'')) False (PrivateName ''c'')) \<and>
   isPrivateIdentifier
     (name (PropertyAccess (PropertyAccess (Ident ''a'') False (Name ''b'')) False
        (PrivateName ''c''))) \<and>
   getOptionalChains \<lparr>sourceFile = printedText, target = 1, v3_7 = 1\<rparr>
     (Binary
        (Binary (Ident ''a'') AmpersandAmpersandToken
           (PropertyAccess (Ident ''a'') False (Name ''b'')))
        AmpersandAmpersandToken
        (PropertyAccess (PropertyAccess (Ident ''a'') False (Name ''b'')) False (PrivateName ''c'')))
     = None \<and>
   visitor \<lparr>sourceFile = printedText, target = 1, v3_7 = 1\<rparr>
     (Binary
        (Binary (Ident ''a'') AmpersandAmpersandToken
           (PropertyAccess (Ident ''a'') False (Name ''b'')))
        AmpersandAmpersandToken
        (PropertyAccess (PropertyAccess (Ident ''a'') False (Name ''b'')) False (PrivateName ''c'')))
     = visitEachChild \<lparr>sourceFile = printedText, target = 1, v3_7 = 1\<rparr>
     (Binary
        (Binary (Ident ''a'') AmpersandAmpersandToken
           (PropertyAccess (Ident ''a'') False (Name ''b'')))
        AmpersandAmpersandToken
        (PropertyAccess (PropertyAccess (Ident ''a'') False (Name ''b'')) False (PrivateName ''c'')))"
proof -
  let ?ab = "PropertyAccess (Ident ''a'') False (Name ''b'')"
  let ?abc = "PropertyAccess ?ab False (PrivateName ''c'')"
  let ?e = "Binary (Binary (Ident ''a'') AmpersandAmpersandToken ?ab) AmpersandAmpersandToken ?abc"
  have w: "getOptionalChains_while ?e [] = Some (?ab # [?abc])"
    by (simp add: kind_defs)
  have m: "?abc \<in> set [?abc]" by simp
  have p: "isPropertyAccessExpression ?abc" by (simp add: kind_defs)
  have q: "isPrivateIdentifier (name ?abc)" by (simp add: kind_defs)
  from w p q
    C1_private_later_link_voids_match [OF w m p q,
      of "\<lparr>sourceFile = printedText, target = 1, v3_7 = 1\<rparr>"]
  show ?thesis by (simp del: visitor.simps visitEachChild.simps getOptionalChains_while.simps)
qed

text \<open>
  Counterexample to C1 as stated: in the chain \<^verbatim>\<open>a && a.b && a.b.#c\<close> the link \<^verbatim>\<open>a.b.#c\<close>
  has a private name, and one application of the visitor rewrites the left operand
  \<^verbatim>\<open>a && a.b\<close>: the result is \<^verbatim>\<open>a?.b && a.b.#c\<close>, not the input.
\<close>

theorem C1_counterexample:
  "printedText
     (Binary
        (Binary (Ident ''a'') AmpersandAmpersandToken
           (PropertyAccess (Ident ''a'') False (Name ''b'')))
        AmpersandAmpersandToken
        (PropertyAccess (PropertyAccess (Ident ''a'') False (Name ''b'')) False (PrivateName ''c'')))
     = ''a && a.b && a.b.#c'' \<and>
   visitor \<lparr>sourceFile = printedText, target = 1, v3_7 = 1\<rparr>
     (Binary
        (Binary (Ident ''a'') AmpersandAmpersandToken
           (PropertyAccess (Ident ''a'') False (Name ''b'')))
        AmpersandAmpersandToken
        (PropertyAccess (PropertyAccess (Ident ''a'') False (Name ''b'')) False (PrivateName ''c'')))
     = Inr (Binary
        (PropertyAccess (Ident ''a'') True (Name ''b''))
        AmpersandAmpersandToken
        (PropertyAccess (PropertyAccess (Ident ''a'') False (Name ''b'')) False (PrivateName ''c''))) \<and>
   printedText
     (Binary
        (PropertyAccess (Ident ''a'') True (Name ''b''))
        AmpersandAmpersandToken
        (PropertyAccess (PropertyAccess (Ident ''a'') False (Name ''b'')) False (PrivateName ''c'')))
     = ''a?.b && a.b.#c''"
  by (simp add: getOptionalChains_def isEqualityExpression_def kind_defs cast_def factory_defs)

text \<open>
  The private-name test of \<^verbatim>\<open>getOptionalChains\<close> is inside the loop that starts at the
  second link, so the first link is not tested: the single link \<^verbatim>\<open>a.#b\<close> of
  \<^verbatim>\<open>a && a.#b\<close> is accepted, and \<^verbatim>\<open>createOptionalChainByChainableExpression\<close> throws in
  \<^verbatim>\<open>cast(expr.name, isIdentifier)\<close>, for every source file and target.
\<close>

lemma private_first_link_throws:
  "printedText (Binary (Ident ''a'') AmpersandAmpersandToken
      (PropertyAccess (Ident ''a'') False (PrivateName ''b''))) = ''a && a.#b'' \<and>
   getOptionalChains env (Binary (Ident ''a'') AmpersandAmpersandToken
      (PropertyAccess (Ident ''a'') False (PrivateName ''b'')))
     = Some [PropertyAccess (Ident ''a'') False (PrivateName ''b'')] \<and>
   visitor env (Binary (Ident ''a'') AmpersandAmpersandToken
      (PropertyAccess (Ident ''a'') False (PrivateName ''b'')))
     = Inl (InvalidCast PrivateIdentifier)"
  by (simp add: getOptionalChains_def kind_defs cast_def)

text \<open>
  Claim C2. The claim: below version 3.7 neither rewrite fires. The code:
  \<^verbatim>\<open>upgradeConditionalExpression\<close> tests \<^verbatim>\<open>target >= TypeScriptVersion.v3_7\<close>, and
  \<^verbatim>\<open>upgradeBinaryExpression\<close> never reads \<^verbatim>\<open>target\<close>. The theorem evaluates the visitor on
  \<^verbatim>\<open>a && a.b\<close>: the result is \<^verbatim>\<open>a?.b\<close> for every target \<open>t\<close> and every number \<open>v\<close> of
  version 3.7, so also for \<open>t < v\<close>.
\<close>

theorem C2_optional_chain_not_gated:
  "printedText (Binary (Ident ''a'') AmpersandAmpersandToken
      (PropertyAccess (Ident ''a'') False (Name ''b''))) = ''a && a.b'' \<and>
   visitor \<lparr>sourceFile = sf, target = t, v3_7 = v\<rparr>
     (Binary (Ident ''a'') AmpersandAmpersandToken
        (PropertyAccess (Ident ''a'') False (Name ''b'')))
     = Inr (PropertyAccess (Ident ''a'') True (Name ''b'')) \<and>
   printedText (PropertyAccess (Ident ''a'') True (Name ''b'')) = ''a?.b''"
  by (simp add: getOptionalChains_def kind_defs cast_def factory_defs)

text \<open>The nullish-coalescing rewrite is behind the version test.\<close>

lemma nullish_rewrite_gated:
  "target env < v3_7 env \<Longrightarrow>
     upgradeConditionalExpression env (Conditional c t f) = visitEachChild env (Conditional c t f)"
  by simp

section \<open>The comparator\<close>

text \<open>
  Claim C6, amended. \<^verbatim>\<open>isEqualityExpression\<close> returns true exactly when the two nodes
  have the same kind and either both are identifiers with the same name or their source
  texts, trimmed of surrounding white space, are identical. It strips no parentheses:
  that is left to its callers in the nullish-coalescing matcher.
\<close>

theorem C6_comparator:
  "isEqualityExpression env lhs rhs \<longleftrightarrow>
     kind lhs = kind rhs \<and>
     ((isIdentifier lhs \<and> isIdentifier rhs \<and> idText lhs = idText rhs) \<or>
      trim (getText lhs (sourceFile env)) = trim (getText rhs (sourceFile env)))"
  by (auto simp: isEqualityExpression_def)

text \<open>
  Counterexample to C6 as stated: the texts of \<^verbatim>\<open>a\<close> and \<^verbatim>\<open>(a)\<close> with the parentheses
  stripped are identical, and the comparator finds the two nodes different, because
  their kinds differ.
\<close>

theorem C6_counterexample:
  "\<not> isEqualityExpression \<lparr>sourceFile = printedText, target = 1, v3_7 = 1\<rparr>
       (Ident ''a'') (Paren (Ident ''a'')) \<and>
   getText (skipParens (Ident ''a'')) printedText
     = getText (skipParens (Paren (Ident ''a''))) printedText \<and>
   getText (Ident ''a'') printedText = ''a'' \<and>
   getText (Paren (Ident ''a'')) printedText = ''(a)''"
  by (simp add: isEqualityExpression_def getText_def)

section \<open>The nullish-coalescing rewrite\<close>

lemma isNullableEqualityExpression_logical:
  "op = BarBarToken \<or> op = AmpersandAmpersandToken \<Longrightarrow>
     isNullableEqualityExpression (Binary l op r) = None"
  by (auto simp: isNullableEqualityExpression_def orElse_def isEqualityOrNotToNull_def
        isStrictEqualityOrNotToNull_def isStrictEqualityOrNotToUndefined_def
        isStrictEqualityOrNotToVoidExpression_def binaryCompare_def
        doEqualityOrNotToNullCompare_def doStrictEqualityOrNotToNullCompare_def
        doStrictEqualityOrNotToUndefinedCompare_def
        doStrictEqualityOrNotToVoidExpressionCompare_def)

text \<open>The comparator finds a node equal to itself, and \<^verbatim>\<open>skipParens\<close> leaves nothing to
  strip.\<close>

lemma isEqualityExpression_refl: "isEqualityExpression env x x"
  by (simp add: isEqualityExpression_def)

lemma skipParens_idem: "skipParens (skipParens a) = skipParens a"
  by (induction a) simp_all

text \<open>The classifier on a strict comparison with \<^verbatim>\<open>null\<close> or \<^verbatim>\<open>undefined\<close>, the subject on
  either side. \<^verbatim>\<open>isStrictEqualityOrNotToNull\<close> is tried before
  \<^verbatim>\<open>isStrictEqualityOrNotToUndefined\<close> and \<^verbatim>\<open>binaryCompare\<close> tries both orders, so a
  subject that is the \<^verbatim>\<open>null\<close> literal makes \<^verbatim>\<open>undefined\<close> the subject of the comparison
  with \<^verbatim>\<open>undefined\<close>.\<close>

lemma strict_null_comparison:
  assumes "eq = EqualsEqualsEqualsToken \<or> eq = ExclamationEqualsEqualsToken"
  shows "isNullableEqualityExpression (Binary a eq Null) = Some (skipParens a)"
  using assms
  by (auto simp: isNullableEqualityExpression_def orElse_def isEqualityOrNotToNull_def
        isStrictEqualityOrNotToNull_def binaryCompare_def
        doEqualityOrNotToNullCompare_def doStrictEqualityOrNotToNullCompare_def)

lemma strict_undefined_comparison:
  assumes "eq = EqualsEqualsEqualsToken \<or> eq = ExclamationEqualsEqualsToken"
    and "u = Ident ''undefined'' \<or> u = Undefined"
  shows "isNullableEqualityExpression (Binary a eq u) =
           Some (if kind (skipParens a) = NullKeyword then u else skipParens a)"
  using assms
  by (auto simp: isNullableEqualityExpression_def orElse_def isEqualityOrNotToNull_def
        isStrictEqualityOrNotToNull_def isStrictEqualityOrNotToUndefined_def binaryCompare_def
        doEqualityOrNotToNullCompare_def doStrictEqualityOrNotToNullCompare_def
        doStrictEqualityOrNotToUndefinedCompare_def isIdentifier_def)

lemma null_strict_comparison:
  assumes "eq = EqualsEqualsEqualsToken \<or> eq = ExclamationEqualsEqualsToken"
    and "kind (skipParens a) \<noteq> NullKeyword"
  shows "isNullableEqualityExpression (Binary Null eq a) = Some (skipParens a)"
  using assms
  by (auto simp: isNullableEqualityExpression_def orElse_def isEqualityOrNotToNull_def
        isStrictEqualityOrNotToNull_def binaryCompare_def
        doEqualityOrNotToNullCompare_def doStrictEqualityOrNotToNullCompare_def)

lemma undefined_strict_comparison:
  assumes "eq = EqualsEqualsEqualsToken \<or> eq = ExclamationEqualsEqualsToken"
    and "kind (skipParens a) \<noteq> NullKeyword" and "kind (skipParens a) \<noteq> UndefinedKeyword"
  shows "isNullableEqualityExpression (Binary (Ident ''undefined'') eq a) = Some (skipParens a)"
  using assms
  by (cases "skipParens a")
     (auto simp: isNullableEqualityExpression_def orElse_def isEqualityOrNotToNull_def
        isStrictEqualityOrNotToNull_def isStrictEqualityOrNotToUndefined_def binaryCompare_def
        doEqualityOrNotToNullCompare_def doStrictEqualityOrNotToNullCompare_def
        doStrictEqualityOrNotToUndefinedCompare_def isIdentifier_def)

text \<open>
  The rewrite of \<^verbatim>\<open>upgradeConditionalExpression\<close> once the condition \<^verbatim>\<open>l || r\<close> or
  \<^verbatim>\<open>l && r\<close> is classified: the guarded branch is \<^verbatim>\<open>whenFalse\<close> for \<^verbatim>\<open>||\<close> and \<^verbatim>\<open>whenTrue\<close>
  for \<^verbatim>\<open>&&\<close>, and when the comparator finds it equal to the subject the result is built by
  \<^verbatim>\<open>createNullishCoalesce\<close> from the subject and the other branch, the children of both
  visited.
\<close>

lemma compound_guard_rewrite:
  assumes "v3_7 env \<le> target env"
    and "op = BarBarToken \<or> op = AmpersandAmpersandToken"
    and "isBinaryNullableEqualityOrNotExpression env (Binary l op r) = Some subject"
    and "isEqualityExpression env (skipParens (if op = BarBarToken then f else t))
           (skipParens subject)"
  shows "visitor env (Conditional (Binary l op r) t f) =
           (case visitEachChild env subject of
              Inl err \<Rightarrow> Inl err
            | Inr lhs \<Rightarrow>
                (case visitEachChild env (if op = BarBarToken then t else f) of
                   Inl err \<Rightarrow> Inl err
                 | Inr rhs \<Rightarrow> Inr (createNullishCoalesce lhs rhs)))"
proof -
  have tgt: "getNullableConditionTarget env (Conditional (Binary l op r) t f) = Some subject"
    using assms(2,3)
    by (simp add: getNullableConditionTarget_def isBinaryExpression_def
          isNullableEqualityExpression_logical)
  from assms(2) show ?thesis
  proof
    assume op: "op = BarBarToken"
    with assms(4) have "getNullishCondBranch env (Conditional (Binary l op r) t f) subject
        = Some (WhenFalse, skipParens f)"
      by (simp add: getNullishCondBranch_def getNullishTargetBranch_def isBinaryExpression_def)
    with assms(1) tgt op show ?thesis
      by (simp split: sum.splits)
  next
    assume op: "op = AmpersandAmpersandToken"
    with assms(4) have "getNullishCondBranch env (Conditional (Binary l op r) t f) subject
        = Some (WhenTrue, skipParens t)"
      by (simp add: getNullishCondBranch_def getNullishTargetBranch_def isBinaryExpression_def)
    with assms(1) tgt op show ?thesis
      by (simp split: sum.splits)
  qed
qed

text \<open>
  Claim C5, amended. Let \<open>a\<close> be a subject that, with its parentheses stripped, is not the
  \<^verbatim>\<open>null\<close> literal, let \<open>u\<close> be the identifier \<^verbatim>\<open>undefined\<close> (or a node of kind
  \<^verbatim>\<open>UndefinedKeyword\<close>), and let the condition of a ternary be \<^verbatim>\<open>a === null || a === u\<close> or
  \<^verbatim>\<open>a !== null && a !== u\<close>: the condition is the \<^verbatim>\<open>||\<close> or \<^verbatim>\<open>&&\<close> expression itself, its
  operands are the two comparisons themselves, and the subject is the same expression
  \<open>a\<close> in both comparisons and in the guarded branch. Then
  \<^verbatim>\<open>isBinaryNullableEqualityOrNotExpression\<close> returns \<open>a\<close> without its parentheses as the
  subject, \<^verbatim>\<open>getNullishCondBranch\<close> takes \<^verbatim>\<open>whenFalse\<close> as the guarded branch for \<^verbatim>\<open>||\<close> and
  \<^verbatim>\<open>whenTrue\<close> for \<^verbatim>\<open>&&\<close>, and at a target of at least version 3.7 the visitor returns
  what \<^verbatim>\<open>createNullishCoalesce\<close> builds from the subject and the other branch \<open>b\<close>, the
  children of both visited: \<^verbatim>\<open>a ?? b\<close>.
\<close>

theorem C5_compound_guard_rewritten:
  assumes "v3_7 env \<le> target env"
    and "u = Ident ''undefined'' \<or> u = Undefined"
    and "kind (skipParens a) \<noteq> NullKeyword"
  shows
    "isBinaryNullableEqualityOrNotExpression env
       (Binary (Binary a EqualsEqualsEqualsToken Null) BarBarToken
          (Binary a EqualsEqualsEqualsToken u)) = Some (skipParens a) \<and>
     getNullishCondBranch env
       (Conditional
          (Binary (Binary a EqualsEqualsEqualsToken Null) BarBarToken
             (Binary a EqualsEqualsEqualsToken u))
          b a) (skipParens a) = Some (WhenFalse, skipParens a) \<and>
     visitor env
       (Conditional
          (Binary (Binary a EqualsEqualsEqualsToken Null) BarBarToken
             (Binary a EqualsEqualsEqualsToken u))
          b a) =
       (case visitEachChild env (skipParens a) of
          Inl err \<Rightarrow> Inl err
        | Inr lhs \<Rightarrow>
            (case visitEachChild env b of
               Inl err \<Rightarrow> Inl err
             | Inr rhs \<Rightarrow> Inr (createNullishCoalesce lhs rhs))) \<and>
     isBinaryNullableEqualityOrNotExpression env
       (Binary (Binary a ExclamationEqualsEqualsToken Null) AmpersandAmpersandToken
          (Binary a ExclamationEqualsEqualsToken u)) = Some (skipParens a) \<and>
     getNullishCondBranch env
       (Conditional
          (Binary (Binary a ExclamationEqualsEqualsToken Null) AmpersandAmpersandToken
             (Binary a ExclamationEqualsEqualsToken u))
          a b) (skipParens a) = Some (WhenTrue, skipParens a) \<and>
     visitor env
       (Conditional
          (Binary (Binary a ExclamationEqualsEqualsToken Null) AmpersandAmpersandToken
             (Binary a ExclamationEqualsEqualsToken u))
          a b) =
       (case visitEachChild env (skipParens a) of
          Inl err \<Rightarrow> Inl err
        | Inr lhs \<Rightarrow>
            (case visitEachChild env b of
               Inl err \<Rightarrow> Inl err
             | Inr rhs \<Rightarrow> Inr (createNullishCoalesce lhs rhs)))"
proof -
  let ?or = "Binary (Binary a EqualsEqualsEqualsToken Null) BarBarToken
               (Binary a EqualsEqualsEqualsToken u)"
  let ?and = "Binary (Binary a ExclamationEqualsEqualsToken Null) AmpersandAmpersandToken
                (Binary a ExclamationEqualsEqualsToken u)"
  have c1: "isBinaryNullableEqualityOrNotExpression env ?or = Some (skipParens a)"
    using assms(2,3)
    by (simp add: isBinaryNullableEqualityOrNotExpression_def isBinaryExpression_def
          strict_null_comparison strict_undefined_comparison isEqualityExpression_refl)
  have c2: "isBinaryNullableEqualityOrNotExpression env ?and = Some (skipParens a)"
    using assms(2,3)
    by (simp add: isBinaryNullableEqualityOrNotExpression_def isBinaryExpression_def
          strict_null_comparison strict_undefined_comparison isEqualityExpression_refl)
  have b1: "getNullishCondBranch env (Conditional ?or b a) (skipParens a)
      = Some (WhenFalse, skipParens a)"
    by (simp add: getNullishCondBranch_def getNullishTargetBranch_def isBinaryExpression_def
          skipParens_idem isEqualityExpression_refl)
  have b2: "getNullishCondBranch env (Conditional ?and a b) (skipParens a)
      = Some (WhenTrue, skipParens a)"
    by (simp add: getNullishCondBranch_def getNullishTargetBranch_def isBinaryExpression_def
          skipParens_idem isEqualityExpression_refl)
  have v1: "visitor env (Conditional ?or b a) =
       (case visitEachChild env (skipParens a) of
          Inl err \<Rightarrow> Inl err
        | Inr lhs \<Rightarrow>
            (case visitEachChild env b of
               Inl err \<Rightarrow> Inl err
             | Inr rhs \<Rightarrow> Inr (createNullishCoalesce lhs rhs)))"
    using compound_guard_rewrite[OF assms(1) _ c1, where t = b and f = a]
    by (simp add: skipParens_idem isEqualityExpression_refl
          del: visitor.simps visitEachChild.simps)
  have v2: "visitor env (Conditional ?and a b) =
       (case visitEachChild env (skipParens a) of
          Inl err \<Rightarrow> Inl err
        | Inr lhs \<Rightarrow>
            (case visitEachChild env b of
               Inl err \<Rightarrow> Inl err
             | Inr rhs \<Rightarrow> Inr (createNullishCoalesce lhs rhs)))"
    using compound_guard_rewrite[OF assms(1) _ c2, where t = a and f = b]
    by (simp add: skipParens_idem isEqualityExpression_refl
          del: visitor.simps visitEachChild.simps)
  from c1 b1 v1 c2 b2 v2 show ?thesis by blast
qed

text \<open>Witness for C5: \<^verbatim>\<open>a === null || a === undefined ? b : a\<close> and
  \<^verbatim>\<open>a !== null && a !== undefined ? a : b\<close> both become \<^verbatim>\<open>a ?? b\<close>, and
  \<^verbatim>\<open>x.y === null || x.y === undefined ? b : x.y\<close> becomes \<^verbatim>\<open>x.y ?? b\<close>.\<close>

theorem C5_compound_guard_rewritten_witness:
  "(1::nat) \<le> 1 \<and>
   (Ident ''undefined'' = Ident ''undefined'' \<or> Ident ''undefined'' = Undefined) \<and>
   kind (skipParens (Ident ''a'')) \<noteq> NullKeyword \<and>
   kind (skipParens (PropertyAccess (Ident ''x'') False (Name ''y''))) \<noteq> NullKeyword \<and>
   isBinaryNullableEqualityOrNotExpression \<lparr>sourceFile = printedText, target = 1, v3_7 = 1\<rparr>
     (Binary (Binary (Ident ''a'') EqualsEqualsEqualsToken Null) BarBarToken
        (Binary (Ident ''a'') EqualsEqualsEqualsToken (Ident ''undefined''))) = Some (Ident ''a'') \<and>
   isBinaryNullableEqualityOrNotExpression \<lparr>sourceFile = printedText, target = 1, v3_7 = 1\<rparr>
     (Binary (Binary (Ident ''a'') ExclamationEqualsEqualsToken Null) AmpersandAmpersandToken
        (Binary (Ident ''a'') ExclamationEqualsEqualsToken (Ident ''undefined''))) = Some (Ident ''a'') \<and>
   visitor \<lparr>sourceFile = printedText, target = 1, v3_7 = 1\<rparr>
     (Conditional
        (Binary (Binary (Ident ''a'') EqualsEqualsEqualsToken Null) BarBarToken
           (Binary (Ident ''a'') EqualsEqualsEqualsToken (Ident ''undefined'')))
        (Ident ''b'') (Ident ''a''))
     = Inr (Binary (Ident ''a'') QuestionQuestionToken (Ident ''b'')) \<and>
   visitor \<lparr>sourceFile = printedText, target = 1, v3_7 = 1\<rparr>
     (Conditional
        (Binary (Binary (Ident ''a'') ExclamationEqualsEqualsToken Null) AmpersandAmpersandToken
           (Binary (Ident ''a'') ExclamationEqualsEqualsToken (Ident ''undefined'')))
        (Ident ''a'') (Ident ''b''))
     = Inr (Binary (Ident ''a'') QuestionQuestionToken (Ident ''b'')) \<and>
   visitor \<lparr>sourceFile = printedText, target = 1, v3_7 = 1\<rparr>
     (Conditional
        (Binary (Binary (PropertyAccess (Ident ''x'') False (Name ''y'')) EqualsEqualsEqualsToken Null)
           BarBarToken
           (Binary (PropertyAccess (Ident ''x'') False (Name ''y'')) EqualsEqualsEqualsToken
              (Ident ''undefined'')))
        (Ident ''b'') (PropertyAccess (Ident ''x'') False (Name ''y'')))
     = Inr (Binary (PropertyAccess (Ident ''x'') False (Name ''y'')) QuestionQuestionToken
          (Ident ''b'')) \<and>
   printedText (Conditional
        (Binary (Binary (Ident ''a'') EqualsEqualsEqualsToken Null) BarBarToken
           (Binary (Ident ''a'') EqualsEqualsEqualsToken (Ident ''undefined'')))
        (Ident ''b'') (Ident ''a'')) = ''a === null || a === undefined ? b : a'' \<and>
   printedText (Conditional
        (Binary (Binary (Ident ''a'') ExclamationEqualsEqualsToken Null) AmpersandAmpersandToken
           (Binary (Ident ''a'') ExclamationEqualsEqualsToken (Ident ''undefined'')))
        (Ident ''a'') (Ident ''b'')) = ''a !== null && a !== undefined ? a : b'' \<and>
   printedText (Binary (Ident ''a'') QuestionQuestionToken (Ident ''b'')) = ''a ?? b''"
proof -
  let ?env = "\<lparr>sourceFile = printedText, target = 1, v3_7 = 1\<rparr>"
  have v: "v3_7 ?env \<le> target ?env" by simp
  have u: "Ident ''undefined'' = Ident ''undefined'' \<or> Ident ''undefined'' = Undefined" by simp
  have ka: "kind (skipParens (Ident ''a'')) \<noteq> NullKeyword" by simp
  have kx: "kind (skipParens (PropertyAccess (Ident ''x'') False (Name ''y''))) \<noteq> NullKeyword"
    by simp
  have ca: "visitEachChild ?env (skipParens (Ident ''a'')) = Inr (Ident ''a'')" by simp
  have cb: "visitEachChild ?env (Ident ''b'') = Inr (Ident ''b'')" by simp
  have cx: "visitEachChild ?env (skipParens (PropertyAccess (Ident ''x'') False (Name ''y'')))
      = Inr (PropertyAccess (Ident ''x'') False (Name ''y''))" by simp
  note inst_a = C5_compound_guard_rewritten [OF v u ka, of "Ident ''b''"]
  note inst_x = C5_compound_guard_rewritten [OF v u kx, of "Ident ''b''"]
  show ?thesis
    using inst_a inst_x
    unfolding ca cb cx
    by (simp add: createNullishCoalesce_def del: visitor.simps visitEachChild.simps)
qed

text \<open>
  Counterexample to C5 as stated: with the \<^verbatim>\<open>null\<close> literal as the subject the ternary has
  the claim's first form, \<^verbatim>\<open>null === null || null === undefined ? b : null\<close>. The
  classifier takes \<^verbatim>\<open>null\<close> as the subject of the first comparison and \<^verbatim>\<open>undefined\<close> as
  the subject of the second, the comparator finds the two different, and the visitor
  returns the ternary as it is, not \<^verbatim>\<open>null ?? b\<close>.
\<close>

theorem C5_counterexample:
  "printedText
     (Conditional
        (Binary (Binary Null EqualsEqualsEqualsToken Null) BarBarToken
           (Binary Null EqualsEqualsEqualsToken (Ident ''undefined'')))
        (Ident ''b'') Null) = ''null === null || null === undefined ? b : null'' \<and>
   isNullableEqualityExpression (Binary Null EqualsEqualsEqualsToken Null) = Some Null \<and>
   isNullableEqualityExpression (Binary Null EqualsEqualsEqualsToken (Ident ''undefined''))
     = Some (Ident ''undefined'') \<and>
   isBinaryNullableEqualityOrNotExpression \<lparr>sourceFile = printedText, target = 1, v3_7 = 1\<rparr>
     (Binary (Binary Null EqualsEqualsEqualsToken Null) BarBarToken
        (Binary Null EqualsEqualsEqualsToken (Ident ''undefined''))) = None \<and>
   visitor \<lparr>sourceFile = printedText, target = 1, v3_7 = 1\<rparr>
     (Conditional
        (Binary (Binary Null EqualsEqualsEqualsToken Null) BarBarToken
           (Binary Null EqualsEqualsEqualsToken (Ident ''undefined'')))
        (Ident ''b'') Null)
     = Inr (Conditional
        (Binary (Binary Null EqualsEqualsEqualsToken Null) BarBarToken
           (Binary Null EqualsEqualsEqualsToken (Ident ''undefined'')))
        (Ident ''b'') Null)"
  by (simp add: classifier_defs kind_defs isEqualityExpression_def getNullableConditionTarget_def
        getNullishCondBranch_def getNullishTargetBranch_def getOptionalChains_def getText_def)

text \<open>
  \<^verbatim>\<open>binaryCompare\<close> tries both orders of the operands, so the comparisons may have the
  literal on the left: \<^verbatim>\<open>null === a || undefined === a ? b : a\<close> is rewritten as well.
\<close>

lemma compound_guard_mirrored:
  assumes "v3_7 env \<le> target env"
    and "kind (skipParens a) \<noteq> NullKeyword" and "kind (skipParens a) \<noteq> UndefinedKeyword"
  shows "visitor env
       (Conditional
          (Binary (Binary Null EqualsEqualsEqualsToken a) BarBarToken
             (Binary (Ident ''undefined'') EqualsEqualsEqualsToken a))
          b a) =
       (case visitEachChild env (skipParens a) of
          Inl err \<Rightarrow> Inl err
        | Inr lhs \<Rightarrow>
            (case visitEachChild env b of
               Inl err \<Rightarrow> Inl err
             | Inr rhs \<Rightarrow> Inr (createNullishCoalesce lhs rhs)))"
proof -
  have c: "isBinaryNullableEqualityOrNotExpression env
      (Binary (Binary Null EqualsEqualsEqualsToken a) BarBarToken
         (Binary (Ident ''undefined'') EqualsEqualsEqualsToken a)) = Some (skipParens a)"
    using assms(2,3)
    by (simp add: isBinaryNullableEqualityOrNotExpression_def isBinaryExpression_def
          null_strict_comparison undefined_strict_comparison isEqualityExpression_refl)
  show ?thesis
    using compound_guard_rewrite[OF assms(1) _ c, where t = b and f = a]
    by (simp add: skipParens_idem isEqualityExpression_refl
          del: visitor.simps visitEachChild.simps)
qed

text \<open>
  Parentheses around the condition or around a comparison. \<^verbatim>\<open>getNullableConditionTarget\<close>
  strips the parentheses of the condition, and \<^verbatim>\<open>getNullishTargetBranch\<close> tests
  \<^verbatim>\<open>isBinaryExpression(cond.condition)\<close> on the condition as it is: a ternary with a
  parenthesised condition is never rewritten at that node.
  \<^verbatim>\<open>isBinaryNullableEqualityOrNotExpression\<close> tests \<^verbatim>\<open>isBinaryExpression\<close> on the operands
  of \<^verbatim>\<open>||\<close> and \<^verbatim>\<open>&&\<close> as they are: a parenthesised comparison is not classified. So
  \<^verbatim>\<open>(a === null || a === undefined) ? b : a\<close> and \<^verbatim>\<open>(a === null) || (a === undefined) ? b : a\<close>
  are both returned unchanged.
\<close>

lemma parenthesised_condition_not_rewritten:
  "visitor env (Conditional (Paren c) t f) = visitEachChild env (Conditional (Paren c) t f)"
  by (simp add: getNullishCondBranch_def getNullishTargetBranch_def isBinaryExpression_def
        split: option.splits del: visitEachChild.simps)

lemma parenthesised_comparison_not_classified:
  "isBinaryNullableEqualityOrNotExpression env (Binary (Paren l) op r) = None"
  "isBinaryNullableEqualityOrNotExpression env (Binary l op (Paren r)) = None"
  by (simp_all add: isBinaryNullableEqualityOrNotExpression_def isBinaryExpression_def)

lemma parenthesised_guards_unchanged:
  "printedText
     (Conditional
        (Paren (Binary (Binary (Ident ''a'') EqualsEqualsEqualsToken Null) BarBarToken
           (Binary (Ident ''a'') EqualsEqualsEqualsToken (Ident ''undefined''))))
        (Ident ''b'') (Ident ''a'')) = ''(a === null || a === undefined) ? b : a'' \<and>
   visitor \<lparr>sourceFile = printedText, target = 1, v3_7 = 1\<rparr>
     (Conditional
        (Paren (Binary (Binary (Ident ''a'') EqualsEqualsEqualsToken Null) BarBarToken
           (Binary (Ident ''a'') EqualsEqualsEqualsToken (Ident ''undefined''))))
        (Ident ''b'') (Ident ''a''))
     = Inr (Conditional
        (Paren (Binary (Binary (Ident ''a'') EqualsEqualsEqualsToken Null) BarBarToken
           (Binary (Ident ''a'') EqualsEqualsEqualsToken (Ident ''undefined''))))
        (Ident ''b'') (Ident ''a'')) \<and>
   printedText
     (Conditional
        (Binary (Paren (Binary (Ident ''a'') EqualsEqualsEqualsToken Null)) BarBarToken
           (Paren (Binary (Ident ''a'') EqualsEqualsEqualsToken (Ident ''undefined''))))
        (Ident ''b'') (Ident ''a'')) = ''(a === null) || (a === undefined) ? b : a'' \<and>
   visitor \<lparr>sourceFile = printedText, target = 1, v3_7 = 1\<rparr>
     (Conditional
        (Binary (Paren (Binary (Ident ''a'') EqualsEqualsEqualsToken Null)) BarBarToken
           (Paren (Binary (Ident ''a'') EqualsEqualsEqualsToken (Ident ''undefined''))))
        (Ident ''b'') (Ident ''a''))
     = Inr (Conditional
        (Binary (Paren (Binary (Ident ''a'') EqualsEqualsEqualsToken Null)) BarBarToken
           (Paren (Binary (Ident ''a'') EqualsEqualsEqualsToken (Ident ''undefined''))))
        (Ident ''b'') (Ident ''a''))"
  by (simp add: classifier_defs kind_defs isEqualityExpression_def getNullableConditionTarget_def
        getNullishCondBranch_def getNullishTargetBranch_def getOptionalChains_def getText_def)

text \<open>In a source file in the printer's layout the text of the subject \<open>a\<close> is never the
  text of the condition \<^verbatim>\<open>a == undefined\<close>, so the comparator never finds them equal.\<close>

lemma length_trim_le: "length (trim s) \<le> length (dropWhile isWhiteSpace s)"
proof -
  have "length (dropWhile isWhiteSpace (rev (dropWhile isWhiteSpace s)))
      \<le> length (rev (dropWhile isWhiteSpace s))"
    by (rule length_dropWhile_le)
  then show ?thesis by (simp add: trim_def)
qed

lemma dropWhile_append_compare:
  "\<exists>zs. dropWhile isWhiteSpace (s @ '' == undefined'') = zs @ ''== undefined'' \<and>
        length (dropWhile isWhiteSpace s) \<le> length zs"
proof (cases "\<forall>x\<in>set s. isWhiteSpace x")
  case True
  then have "dropWhile isWhiteSpace (s @ '' == undefined'') = dropWhile isWhiteSpace '' == undefined''"
    by (intro dropWhile_append2) simp
  also have "\<dots> = [] @ ''== undefined''"
    by (simp add: isWhiteSpace_def)
  finally show ?thesis using True by (intro exI[of _ "[]"]) simp
next
  case False
  then obtain x where "x \<in> set s" "\<not> isWhiteSpace x" by blast
  then have "dropWhile isWhiteSpace (s @ '' == undefined'')
      = dropWhile isWhiteSpace s @ '' == undefined''"
    by (rule dropWhile_append1)
  then show ?thesis
    by (intro exI[of _ "dropWhile isWhiteSpace s @ '' ''"]) simp
qed

lemma length_trim_append_compare:
  "length (dropWhile isWhiteSpace s) + 12 \<le> length (trim (s @ '' == undefined''))"
proof -
  obtain zs where zs: "dropWhile isWhiteSpace (s @ '' == undefined'') = zs @ ''== undefined''"
    and len: "length (dropWhile isWhiteSpace s) \<le> length zs"
    using dropWhile_append_compare by blast
  have "trim (s @ '' == undefined'') = zs @ ''== undefined''"
    unfolding trim_def zs by (simp add: isWhiteSpace_def)
  with len show ?thesis by simp
qed

lemma length_printedText_skipParens:
  "length (printedText (skipParens a)) \<le> length (printedText a)"
  by (induction a rule: skipParens.induct) simp_all

lemma printed_subject_differs:
  assumes "sourceFile env = printedText"
    and "u = Ident ''undefined'' \<or> u = Undefined"
  shows "\<not> isEqualityExpression env (skipParens a) (Binary a EqualsEqualsToken u)"
proof
  assume eq: "isEqualityExpression env (skipParens a) (Binary a EqualsEqualsToken u)"
  have pu: "printedText (Binary a EqualsEqualsToken u) = printedText a @ '' == undefined''"
    using assms(2) by auto
  from eq have k: "kind (skipParens a) = BinaryExpression"
    by (simp add: isEqualityExpression_def split: if_splits)
  then have "\<not> isIdentifier (skipParens a)" by (simp add: isIdentifier_def)
  with eq assms(1) pu have t: "trim (printedText (skipParens a)) = trim (printedText a @ '' == undefined'')"
    by (simp add: isEqualityExpression_def getText_def split: if_splits)
  have "length (trim (printedText (skipParens a))) \<le> length (dropWhile isWhiteSpace (printedText a))"
  proof -
    have "skipParens a = a \<or> (\<exists>a'. a = Paren a')"
      by (cases a) simp_all
    then show ?thesis
    proof
      assume "skipParens a = a"
      with length_trim_le[of "printedText a"] show ?thesis by simp
    next
      assume "\<exists>a'. a = Paren a'"
      then obtain a' where Paren: "a = Paren a'" ..
      have "length (trim (printedText (skipParens a)))
          \<le> length (dropWhile isWhiteSpace (printedText (skipParens a)))"
        by (rule length_trim_le)
      also have "\<dots> \<le> length (printedText (skipParens a))"
        by (rule length_dropWhile_le)
      also have "\<dots> \<le> length (printedText a)"
        by (rule length_printedText_skipParens)
      also have "printedText a = dropWhile isWhiteSpace (printedText a)"
        unfolding Paren by (simp add: isWhiteSpace_def)
      finally show ?thesis .
    qed
  qed
  with length_trim_append_compare[of "printedText a"] t show False by simp
qed

text \<open>
  Claim C9. For a loose \<^verbatim>\<open>==\<close> or \<^verbatim>\<open>!=\<close> the classifier returns a subject only when the
  other operand is the \<^verbatim>\<open>null\<close> literal. With \<open>u\<close> the identifier \<^verbatim>\<open>undefined\<close> (or a node
  of kind \<^verbatim>\<open>UndefinedKeyword\<close>) and a subject \<open>a\<close> other than \<^verbatim>\<open>null\<close>, \<^verbatim>\<open>a op u\<close> is
  classified as a guard on \<open>a\<close> exactly for the strict operators. So for the ternary
  \<^verbatim>\<open>a == undefined ? b : a\<close> no nullish-coalescing rewrite fires: the visitor only
  visits its children. The second hypothesis says that the comparator does not find the
  subject equal to the whole condition \<^verbatim>\<open>a == undefined\<close>; in a source file the text of
  the subject is a proper part of the text of the condition (\<open>printed_subject_differs\<close>
  proves the hypothesis for the printer's layout).
\<close>

theorem C9_loose_undefined_is_no_guard:
  assumes "u = Ident ''undefined'' \<or> u = Undefined"
    and "\<not> isEqualityExpression env (skipParens a) (Binary a EqualsEqualsToken u)"
  shows "(\<forall>op l r s. (op = EqualsEqualsToken \<or> op = ExclamationEqualsToken) \<longrightarrow>
            isNullableEqualityExpression (Binary l op r) = Some s \<longrightarrow>
            (s = skipParens l \<and> kind (skipParens r) = NullKeyword) \<or>
            (s = skipParens r \<and> kind (skipParens l) = NullKeyword)) \<and>
         (kind (skipParens a) \<noteq> NullKeyword \<longrightarrow>
            (\<forall>op. isNullableEqualityExpression (Binary a op u) =
               (if op = EqualsEqualsEqualsToken \<or> op = ExclamationEqualsEqualsToken
                then Some (skipParens a) else None))) \<and>
         visitor env (Conditional (Binary a EqualsEqualsToken u) b a) =
           visitEachChild env (Conditional (Binary a EqualsEqualsToken u) b a)"
proof (intro conjI allI impI)
  fix op l r s
  assume "op = EqualsEqualsToken \<or> op = ExclamationEqualsToken"
    and "isNullableEqualityExpression (Binary l op r) = Some s"
  then show "(s = skipParens l \<and> kind (skipParens r) = NullKeyword) \<or>
            (s = skipParens r \<and> kind (skipParens l) = NullKeyword)"
    by (auto simp: classifier_defs split: if_splits option.splits)
next
  fix op
  assume "kind (skipParens a) \<noteq> NullKeyword"
  with assms(1) show "isNullableEqualityExpression (Binary a op u) =
               (if op = EqualsEqualsEqualsToken \<or> op = ExclamationEqualsEqualsToken
                then Some (skipParens a) else None)"
    by (auto simp: classifier_defs kind_defs)
next
  let ?c = "Conditional (Binary a EqualsEqualsToken u) b a"
  have nb: "isBinaryNullableEqualityOrNotExpression env (Binary a EqualsEqualsToken u) = None"
    by (simp add: isBinaryNullableEqualityOrNotExpression_def)
  have br: "getNullishTargetBranch ?c = Some (WhenFalse, a)"
    by (simp add: getNullishTargetBranch_def kind_defs)
  have u: "skipParens u = u" "kind u \<noteq> NullKeyword" using assms(1) by auto
  show "visitor env ?c = visitEachChild env ?c"
  proof (cases "kind (skipParens a) = NullKeyword")
    case True
    then have "isNullableEqualityExpression (Binary a EqualsEqualsToken u) = Some u"
      using u by (simp add: classifier_defs)
    then have t: "getNullableConditionTarget env ?c = Some u"
      by (simp add: getNullableConditionTarget_def kind_defs)
    from True assms(1) have "\<not> isEqualityExpression env (skipParens a) (skipParens u)"
      by (auto simp: isEqualityExpression_def)
    with br have "getNullishCondBranch env ?c u = None"
      by (simp add: getNullishCondBranch_def)
    with t show ?thesis by (simp del: visitEachChild.simps)
  next
    case False
    then have "isNullableEqualityExpression (Binary a EqualsEqualsToken u) = None"
      using u by (simp add: classifier_defs)
    with nb have t: "getNullableConditionTarget env ?c = Some (Binary a EqualsEqualsToken u)"
      by (simp add: getNullableConditionTarget_def kind_defs)
    from br assms(2) have "getNullishCondBranch env ?c (Binary a EqualsEqualsToken u) = None"
      by (simp add: getNullishCondBranch_def)
    with t show ?thesis by (simp del: visitEachChild.simps)
  qed
qed

text \<open>Witness for C9: \<^verbatim>\<open>a == undefined ? b : a\<close> is returned unchanged.\<close>

theorem C9_loose_undefined_is_no_guard_witness:
  "(Ident ''undefined'' = Ident ''undefined'' \<or> Ident ''undefined'' = Undefined) \<and>
   \<not> isEqualityExpression \<lparr>sourceFile = printedText, target = 1, v3_7 = 1\<rparr>
       (skipParens (Ident ''a'')) (Binary (Ident ''a'') EqualsEqualsToken (Ident ''undefined'')) \<and>
   isNullableEqualityExpression (Binary (Ident ''a'') EqualsEqualsToken (Ident ''undefined'')) = None \<and>
   isNullableEqualityExpression (Binary (Ident ''a'') EqualsEqualsEqualsToken (Ident ''undefined''))
     = Some (Ident ''a'') \<and>
   printedText (Conditional (Binary (Ident ''a'') EqualsEqualsToken (Ident ''undefined''))
        (Ident ''b'') (Ident ''a'')) = ''a == undefined ? b : a'' \<and>
   visitor \<lparr>sourceFile = printedText, target = 1, v3_7 = 1\<rparr>
     (Conditional (Binary (Ident ''a'') EqualsEqualsToken (Ident ''undefined''))
        (Ident ''b'') (Ident ''a''))
     = Inr (Conditional (Binary (Ident ''a'') EqualsEqualsToken (Ident ''undefined''))
        (Ident ''b'') (Ident ''a''))"
proof -
  let ?env = "\<lparr>sourceFile = printedText, target = 1, v3_7 = 1\<rparr>"
  have h1: "Ident ''undefined'' = Ident ''undefined'' \<or> Ident ''undefined'' = Undefined"
    by simp
  have h2: "\<not> isEqualityExpression ?env
       (skipParens (Ident ''a'')) (Binary (Ident ''a'') EqualsEqualsToken (Ident ''undefined''))"
    by (simp add: isEqualityExpression_def)
  have k: "kind (skipParens (Ident ''a'')) \<noteq> NullKeyword" by simp
  note inst = C9_loose_undefined_is_no_guard [OF h1 h2, of "Ident ''b''"]
  from inst k have c: "\<forall>op. isNullableEqualityExpression (Binary (Ident ''a'') op (Ident ''undefined'')) =
               (if op = EqualsEqualsEqualsToken \<or> op = ExclamationEqualsEqualsToken
                then Some (skipParens (Ident ''a'')) else None)"
    by blast
  from inst have v: "visitor ?env (Conditional (Binary (Ident ''a'') EqualsEqualsToken (Ident ''undefined''))
        (Ident ''b'') (Ident ''a'')) =
      visitEachChild ?env (Conditional (Binary (Ident ''a'') EqualsEqualsToken (Ident ''undefined''))
        (Ident ''b'') (Ident ''a''))"
    by blast
  have "visitEachChild ?env (Conditional (Binary (Ident ''a'') EqualsEqualsToken (Ident ''undefined''))
        (Ident ''b'') (Ident ''a''))
     = Inr (Conditional (Binary (Ident ''a'') EqualsEqualsToken (Ident ''undefined''))
        (Ident ''b'') (Ident ''a''))"
    by (simp add: getOptionalChains_def)
  with v h1 h2 c[rule_format, of EqualsEqualsToken] c[rule_format, of EqualsEqualsEqualsToken]
  show ?thesis by simp
qed

text \<open>
  Claim C10. Let the condition of a ternary be a binary expression that neither
  \<^verbatim>\<open>isNullableEqualityExpression\<close> nor \<^verbatim>\<open>isBinaryNullableEqualityOrNotExpression\<close>
  recognises. Then \<^verbatim>\<open>getNullableConditionTarget\<close> returns the condition itself, and when
  the guarded branch \<open>g\<close> is equal to the whole condition for the comparator, the visitor
  (at a target of at least version 3.7) returns \<^verbatim>\<open>condition ?? other\<close>.
\<close>

theorem C10_whole_condition_as_subject:
  assumes "v3_7 env \<le> target env"
    and "isNullableEqualityExpression (Binary l op r) = None"
    and "isBinaryNullableEqualityOrNotExpression env (Binary l op r) = None"
    and "getNullishTargetBranch (Conditional (Binary l op r) t f) = Some (b, g)"
    and "isEqualityExpression env (skipParens g) (Binary l op r)"
  shows "getNullableConditionTarget env (Conditional (Binary l op r) t f) = Some (Binary l op r) \<and>
         visitor env (Conditional (Binary l op r) t f) =
           (case visitEachChild env (Binary l op r) of
              Inl err \<Rightarrow> Inl err
            | Inr lhs \<Rightarrow>
                (case visitEachChild env (if b = WhenTrue then f else t) of
                   Inl err \<Rightarrow> Inl err
                 | Inr rhs \<Rightarrow> Inr (Binary lhs QuestionQuestionToken rhs)))"
proof -
  have tgt: "getNullableConditionTarget env (Conditional (Binary l op r) t f) = Some (Binary l op r)"
    using assms(2,3) by (simp add: getNullableConditionTarget_def isBinaryExpression_def)
  from assms(4) have g: "(b = WhenTrue \<and> g = t) \<or> (b = WhenFalse \<and> g = f)"
    by (auto simp: getNullishTargetBranch_def split: if_splits BinaryOperator.splits)
  from assms(4,5) have br: "getNullishCondBranch env (Conditional (Binary l op r) t f) (Binary l op r)
      = Some (b, skipParens g)"
    by (simp add: getNullishCondBranch_def)
  from g assms(1) tgt br show ?thesis
    by (auto simp: createNullishCoalesce_def simp del: visitEachChild.simps split: sum.splits)
qed

text \<open>Witness for C10: \<^verbatim>\<open>a && b ? a && b : c\<close> becomes the nullish coalescing of
  \<^verbatim>\<open>a && b\<close> and \<^verbatim>\<open>c\<close>, that is \<^verbatim>\<open>(a && b) ?? c\<close>.\<close>

theorem C10_whole_condition_as_subject_witness:
  "(1::nat) \<le> 1 \<and>
   isNullableEqualityExpression (Binary (Ident ''a'') AmpersandAmpersandToken (Ident ''b'')) = None \<and>
   isBinaryNullableEqualityOrNotExpression \<lparr>sourceFile = printedText, target = 1, v3_7 = 1\<rparr>
     (Binary (Ident ''a'') AmpersandAmpersandToken (Ident ''b'')) = None \<and>
   getNullishTargetBranch
     (Conditional (Binary (Ident ''a'') AmpersandAmpersandToken (Ident ''b''))
        (Binary (Ident ''a'') AmpersandAmpersandToken (Ident ''b'')) (Ident ''c''))
     = Some (WhenTrue, Binary (Ident ''a'') AmpersandAmpersandToken (Ident ''b'')) \<and>
   isEqualityExpression \<lparr>sourceFile = printedText, target = 1, v3_7 = 1\<rparr>
     (skipParens (Binary (Ident ''a'') AmpersandAmpersandToken (Ident ''b'')))
     (Binary (Ident ''a'') AmpersandAmpersandToken (Ident ''b'')) \<and>
   printedText
     (Conditional (Binary (Ident ''a'') AmpersandAmpersandToken (Ident ''b''))
        (Binary (Ident ''a'') AmpersandAmpersandToken (Ident ''b'')) (Ident ''c''))
     = ''a && b ? a && b : c'' \<and>
   visitor \<lparr>sourceFile = printedText, target = 1, v3_7 = 1\<rparr>
     (Conditional (Binary (Ident ''a'') AmpersandAmpersandToken (Ident ''b''))
        (Binary (Ident ''a'') AmpersandAmpersandToken (Ident ''b'')) (Ident ''c''))
     = Inr (Binary (Binary (Ident ''a'') AmpersandAmpersandToken (Ident ''b''))
              QuestionQuestionToken (Ident ''c''))"
proof -
  let ?env = "\<lparr>sourceFile = printedText, target = 1, v3_7 = 1\<rparr>"
  let ?ab = "Binary (Ident ''a'') AmpersandAmpersandToken (Ident ''b'')"
  have v: "v3_7 ?env \<le> target ?env" by simp
  have n1: "isNullableEqualityExpression ?ab = None"
    by (simp add: classifier_defs)
  have n2: "isBinaryNullableEqualityOrNotExpression ?env ?ab = None"
    by (simp add: classifier_defs kind_defs)
  have b: "getNullishTargetBranch (Conditional ?ab ?ab (Ident ''c'')) = Some (WhenTrue, ?ab)"
    by (simp add: getNullishTargetBranch_def kind_defs)
  have e: "isEqualityExpression ?env (skipParens ?ab) ?ab"
    by (simp add: isEqualityExpression_def)
  have l: "visitEachChild ?env ?ab = Inr ?ab"
    by (simp add: getOptionalChains_def)
  have r: "visitEachChild ?env (Ident ''c'') = Inr (Ident ''c'')"
    by simp
  from C10_whole_condition_as_subject [OF v n1 n2 b e] l r
  have "visitor ?env (Conditional ?ab ?ab (Ident ''c''))
      = Inr (Binary ?ab QuestionQuestionToken (Ident ''c''))"
    by (simp del: visitor.simps visitEachChild.simps)
  with n1 n2 b e show ?thesis
    by (simp del: visitor.simps)
qed

section \<open>The fixed-point driver\<close>

lemma upgrade_while_again:
  "snd (changeTrackerWith ext file tgt) \<Longrightarrow>
     upgrade_while ext tgt file i =
       upgrade_while ext tgt
         (foldl (applyChanges ext) file (fst (changeTrackerWith ext file tgt))) (i + 1)"
  by (subst upgrade_while.simps) (simp add: Let_def case_prod_beta)

lemma upgrade_while_done:
  "\<not> snd (changeTrackerWith ext file tgt) \<Longrightarrow>
     upgrade_while ext tgt file i =
       Some (foldl (applyChanges ext) file (fst (changeTrackerWith ext file tgt)), i + 1)"
  by (subst upgrade_while.simps) (simp add: Let_def case_prod_beta)

lemma textAfter_shift:
  "textAfter ext tgt (foldl (applyChanges ext) file (fst (changeTrackerWith ext file tgt))) k
     = textAfter ext tgt file (Suc k)"
  by (induction k) simp_all

lemma upgrade_while_after:
  "(\<forall>k<n. snd (changeTrackerWith ext (textAfter ext tgt code k) tgt)) \<Longrightarrow>
     upgrade_while ext tgt code i = upgrade_while ext tgt (textAfter ext tgt code n) (i + n)"
proof (induction n)
  case 0
  then show ?case by simp
next
  case (Suc n)
  then have "upgrade_while ext tgt code i = upgrade_while ext tgt (textAfter ext tgt code n) (i + n)"
    by simp
  also have "\<dots> = upgrade_while ext tgt (textAfter ext tgt code (Suc n)) (i + n + 1)"
    using Suc.prems by (subst upgrade_while_again) simp_all
  finally show ?case by simp
qed

lemma upgrade_while_returns:
  assumes "\<forall>k<n. snd (changeTrackerWith ext (textAfter ext tgt code k) tgt)"
    and "\<not> snd (changeTrackerWith ext (textAfter ext tgt code n) tgt)"
  shows "upgrade_while ext tgt code i = Some (textAfter ext tgt code (Suc n), i + Suc n)"
proof -
  have "upgrade_while ext tgt code i = upgrade_while ext tgt (textAfter ext tgt code n) (i + n)"
    by (rule upgrade_while_after[OF assms(1)])
  also have "\<dots> = Some (textAfter ext tgt code (Suc n), i + n + 1)"
    by (subst upgrade_while_done[OF assms(2)]) simp
  finally show ?thesis by simp
qed

lemma upgrade_while_result:
  assumes "upgrade_while ext tgt file i = Some y"
  shows "\<exists>n. (\<forall>k<n. snd (changeTrackerWith ext (textAfter ext tgt file k) tgt)) \<and>
         \<not> snd (changeTrackerWith ext (textAfter ext tgt file n) tgt) \<and>
         y = (textAfter ext tgt file (Suc n), i + Suc n)"
  using assms
proof (induct rule: upgrade_while.raw_induct[rotated 1, consumes 1])
  case (1 upgrade_while' ext tgt fl i y)
  let ?file' = "foldl (applyChanges ext) fl (fst (changeTrackerWith ext fl tgt))"
  have shift: "textAfter ext tgt ?file' k = textAfter ext tgt fl (Suc k)" for k
    by (rule textAfter_shift)
  show ?case
  proof (cases "snd (changeTrackerWith ext fl tgt)")
    case True
    with 1(2) have "upgrade_while' ext tgt ?file' (i + 1) = Some y"
      by (simp add: Let_def case_prod_beta)
    from 1(1)[OF this] obtain n where
      n1: "\<forall>k<n. snd (changeTrackerWith ext (textAfter ext tgt ?file' k) tgt)" and
      n2: "\<not> snd (changeTrackerWith ext (textAfter ext tgt ?file' n) tgt)" and
      n3: "y = (textAfter ext tgt ?file' (Suc n), i + 1 + Suc n)"
      by blast
    have "\<forall>k<Suc n. snd (changeTrackerWith ext (textAfter ext tgt fl k) tgt)"
    proof (intro allI impI)
      fix k assume k: "k < Suc n"
      show "snd (changeTrackerWith ext (textAfter ext tgt fl k) tgt)"
      proof (cases k)
        case 0
        with True show ?thesis by simp
      next
        case (Suc j)
        with k have "j < n" by simp
        with n1 have "snd (changeTrackerWith ext (textAfter ext tgt ?file' j) tgt)" by blast
        then show ?thesis unfolding shift Suc .
      qed
    qed
    moreover have "\<not> snd (changeTrackerWith ext (textAfter ext tgt fl (Suc n)) tgt)"
      using n2 unfolding shift .
    moreover have "y = (textAfter ext tgt fl (Suc (Suc n)), i + Suc (Suc n))"
      using n3 unfolding shift by (simp del: textAfter.simps)
    ultimately show ?thesis by blast
  next
    case False
    with 1(2) have "y = (textAfter ext tgt fl (Suc 0), i + Suc 0)"
      by (simp add: Let_def case_prod_beta)
    with False show ?thesis by (intro exI[of _ 0]) simp
  qed
qed

text \<open>
  Claim C7. When a pass that asks for no further pass has made no change, and
  \<^verbatim>\<open>upgrade\<close> returns \<open>out\<close> for \<open>code\<close>, then \<^verbatim>\<open>upgrade\<close> returns \<open>out\<close> for \<open>out\<close>, with the
  same target.
\<close>

theorem C7_idempotent:
  assumes "reportsReplacements ext tgt"
    and "upgrade ext code tgt = Some out"
  shows "upgrade ext out tgt = Some out"
proof -
  from assms(2) obtain y where y: "upgrade_while ext tgt code 0 = Some y" "out = fst y"
    by (auto simp: upgrade_def)
  from upgrade_while_result[OF y(1)] obtain n where
    n: "\<not> snd (changeTrackerWith ext (textAfter ext tgt code n) tgt)"
       "out = textAfter ext tgt code (Suc n)"
    using y(2) by auto
  from n(1) assms(1) have nochange: "fst (changeTrackerWith ext (textAfter ext tgt code n) tgt) = []"
    by (simp add: reportsReplacements_def)
  with n(2) have out: "out = textAfter ext tgt code n" by simp
  with n(1) nochange have "\<not> snd (changeTrackerWith ext out tgt)"
    "fst (changeTrackerWith ext out tgt) = []" by simp_all
  then have "upgrade_while ext tgt out 0 = Some (out, 1)"
    using upgrade_while_done[of ext out tgt 0] by simp
  then show ?thesis by (simp add: upgrade_def)
qed

text \<open>Witness for C7: the example returns \<^verbatim>\<open>a?.b\<close> for \<^verbatim>\<open>a && a.b\<close> and for
  \<^verbatim>\<open>a?.b\<close>.\<close>

theorem C7_idempotent_witness:
  "reportsReplacements onePassExample 1 \<and>
   upgrade onePassExample ''a && a.b'' 1 = Some ''a?.b'' \<and>
   upgrade onePassExample ''a?.b'' 1 = Some ''a?.b''"
proof -
  have h1: "reportsReplacements onePassExample 1"
    by (simp add: reportsReplacements_def onePassExample_def)
  have t1: "textAfter onePassExample 1 ''a && a.b'' (Suc 0) = ''a?.b''"
    by (simp add: onePassExample_def applyTextChange_def)
  have t2: "textAfter onePassExample 1 ''a && a.b'' (Suc (Suc 0)) = ''a?.b''"
    by (simp add: onePassExample_def applyTextChange_def)
  have p0: "\<forall>k<Suc 0. snd (changeTrackerWith onePassExample
              (textAfter onePassExample 1 ''a && a.b'' k) 1)"
    by (simp add: onePassExample_def)
  have p1: "\<not> snd (changeTrackerWith onePassExample
              (textAfter onePassExample 1 ''a && a.b'' (Suc 0)) 1)"
    unfolding t1 by (simp add: onePassExample_def)
  have h2: "upgrade onePassExample ''a && a.b'' 1 = Some ''a?.b''"
    using upgrade_while_returns [OF p0 p1, of 0] unfolding t2 by (simp add: upgrade_def)
  from h1 h2 C7_idempotent [OF h1 h2] show ?thesis by blast
qed

text \<open>
  Claim C8, amended. The driver has no pass-count cap and no failure result: it returns
  exactly when some pass does not ask for another one, and then it returns the text
  after that pass; as long as every pass asks for another one, it keeps running.
\<close>

theorem C8_no_pass_cap:
  "upgrade ext code tgt = Some out \<longleftrightarrow>
     (\<exists>n. (\<forall>k<n. snd (changeTrackerWith ext (textAfter ext tgt code k) tgt)) \<and>
          \<not> snd (changeTrackerWith ext (textAfter ext tgt code n) tgt) \<and>
          out = textAfter ext tgt code (Suc n))"
proof
  assume "upgrade ext code tgt = Some out"
  then obtain y where "upgrade_while ext tgt code 0 = Some y" "out = fst y"
    by (auto simp: upgrade_def)
  with upgrade_while_result[of ext tgt code 0 y] show
    "\<exists>n. (\<forall>k<n. snd (changeTrackerWith ext (textAfter ext tgt code k) tgt)) \<and>
          \<not> snd (changeTrackerWith ext (textAfter ext tgt code n) tgt) \<and>
          out = textAfter ext tgt code (Suc n)"
    by auto
next
  assume "\<exists>n. (\<forall>k<n. snd (changeTrackerWith ext (textAfter ext tgt code k) tgt)) \<and>
          \<not> snd (changeTrackerWith ext (textAfter ext tgt code n) tgt) \<and>
          out = textAfter ext tgt code (Suc n)"
  then obtain n where
    "\<forall>k<n. snd (changeTrackerWith ext (textAfter ext tgt code k) tgt)"
    "\<not> snd (changeTrackerWith ext (textAfter ext tgt code n) tgt)"
    "out = textAfter ext tgt code (Suc n)"
    by blast
  with upgrade_while_returns[of n ext tgt code 0] show "upgrade ext code tgt = Some out"
    by (simp add: upgrade_def)
qed

text \<open>Witness for C8: the first pass of the example asks for another pass, the second
  does not, and the driver returns the text after the second pass.\<close>

theorem C8_no_pass_cap_witness:
  "snd (changeTrackerWith onePassExample (textAfter onePassExample 1 ''a && a.b'' 0) 1) \<and>
   \<not> snd (changeTrackerWith onePassExample (textAfter onePassExample 1 ''a && a.b'' (Suc 0)) 1) \<and>
   textAfter onePassExample 1 ''a && a.b'' (Suc (Suc 0)) = ''a?.b'' \<and>
   upgrade onePassExample ''a && a.b'' 1 = Some ''a?.b''"
proof -
  have t1: "textAfter onePassExample 1 ''a && a.b'' (Suc 0) = ''a?.b''"
    by (simp add: onePassExample_def applyTextChange_def)
  have t2: "textAfter onePassExample 1 ''a && a.b'' (Suc (Suc 0)) = ''a?.b''"
    by (simp add: onePassExample_def applyTextChange_def)
  have p0: "snd (changeTrackerWith onePassExample (textAfter onePassExample 1 ''a && a.b'' 0) 1)"
    by (simp add: onePassExample_def)
  have p1: "\<not> snd (changeTrackerWith onePassExample
              (textAfter onePassExample 1 ''a && a.b'' (Suc 0)) 1)"
    unfolding t1 by (simp add: onePassExample_def)
  have "\<exists>n. (\<forall>k<n. snd (changeTrackerWith onePassExample
                    (textAfter onePassExample 1 ''a && a.b'' k) 1)) \<and>
          \<not> snd (changeTrackerWith onePassExample (textAfter onePassExample 1 ''a && a.b'' n) 1) \<and>
          ''a?.b'' = textAfter onePassExample 1 ''a && a.b'' (Suc n)"
    using p0 p1 t2 by (intro exI[of _ "Suc 0"]) (simp del: textAfter.simps)
  then have "upgrade onePassExample ''a && a.b'' 1 = Some ''a?.b''"
    by (rule C8_no_pass_cap [THEN iffD2])
  with p0 p1 t2 show ?thesis by blast
qed

text \<open>
  Counterexample to C8 as stated: every pass of \<open>restlessExample\<close> asks for another
  pass, and the driver never returns; no cap stops it and no error is reported.
\<close>

theorem C8_counterexample:
  "upgrade restlessExample ''a'' 0 = None"
proof -
  have "snd (changeTrackerWith restlessExample fl 0)" for fl
    by (simp add: restlessExample_def)
  then have "upgrade_while restlessExample 0 ''a'' 0 \<noteq> Some y" for y
    using upgrade_while_result[of restlessExample 0 "''a''" 0 y] by blast
  then show ?thesis
    by (cases "upgrade_while restlessExample 0 ''a'' 0") (auto simp: upgrade_def)
qed

end
